theory Spec2Isabelle
  imports Complex_Main
begin

section \<open>Tensors\<close>

text \<open>
  The solver of \<^verbatim>\<open>admm.py\<close> and the attack of \<^verbatim>\<open>utills.py\<close> compute on torch tensors of
  two kinds: column tensors of shape \<open>(k, 1)\<close> (the observation \<open>x\<close>, the solver state
  \<open>s\<close>, \<open>u\<close>, \<open>v\<close>) and matrices of shape \<open>(r, c)\<close> (the sensing matrix \<open>H\<close> and the
  cached inverse \<open>left_term\<close>). A column tensor is the list of its entries; a matrix
  carries its shape and its entries, so that every value of the type is a well-formed
  tensor. Entries are real numbers: rounding of the 32-bit floats is not modelled.
\<close>

type_synonym vec = "real list"

record mat =
  nr :: nat
  nc :: nat
  en :: "nat \<Rightarrow> nat \<Rightarrow> real"

datatype error =
  RuntimeError
  | ZeroDivisionError
  | LinAlgError
  | UnboundLocalError

text \<open>Sequencing of statements that may raise: the first exception ends the run.\<close>

definition bind_e :: "error + 'a \<Rightarrow> ('a \<Rightarrow> error + 'b) \<Rightarrow> error + 'b" where
  "bind_e r f = (case r of Inl e \<Rightarrow> Inl e | Inr a \<Rightarrow> f a)"

text \<open>The class of each exception, by its Python name.\<close>

definition exception_name :: "error \<Rightarrow> string" where
  "exception_name e =
     (case e of RuntimeError \<Rightarrow> ''RuntimeError''
      | ZeroDivisionError \<Rightarrow> ''ZeroDivisionError''
      | LinAlgError \<Rightarrow> ''LinAlgError''
      | UnboundLocalError \<Rightarrow> ''UnboundLocalError'')"

text \<open>A matrix written row by row, as in \<^verbatim>\<open>torch.tensor([[..], [..]])\<close>.\<close>

definition mat_of_rows :: "real list list \<Rightarrow> mat" where
  "mat_of_rows rs =
     \<lparr>nr = length rs,
      nc = (case rs of [] \<Rightarrow> 0 | r # _ \<Rightarrow> length r),
      en = (\<lambda>i j. rs ! i ! j)\<rparr>"

text \<open>\<^verbatim>\<open>A.T\<close>\<close>

definition mat_T :: "mat \<Rightarrow> mat" where
  "mat_T A = \<lparr>nr = nc A, nc = nr A, en = (\<lambda>i j. en A j i)\<rparr>"

text \<open>\<^verbatim>\<open>torch.eye(k)\<close>\<close>

definition eye :: "nat \<Rightarrow> mat" where
  "eye k = \<lparr>nr = k, nc = k, en = (\<lambda>i j. if i = j then 1 else 0)\<rparr>"

text \<open>\<^verbatim>\<open>c * A\<close> for a Python float \<open>c\<close>.\<close>

definition mat_scale :: "real \<Rightarrow> mat \<Rightarrow> mat" where
  "mat_scale c A = \<lparr>nr = nr A, nc = nc A, en = (\<lambda>i j. c * en A i j)\<rparr>"

text \<open>
  \<^verbatim>\<open>A + B\<close> on matrices. Torch broadcasts a dimension of size one; the constructor only
  adds two square matrices of one size, so every other pair of shapes is the shape error.
\<close>

definition mat_add :: "mat \<Rightarrow> mat \<Rightarrow> error + mat" where
  "mat_add A B =
     (if nr A = nr B \<and> nc A = nc B
      then Inr \<lparr>nr = nr A, nc = nc A, en = (\<lambda>i j. en A i j + en B i j)\<rparr>
      else Inl RuntimeError)"

text \<open>\<^verbatim>\<open>torch.matmul(A, B)\<close> on two matrices: the inner sizes must agree.\<close>

definition matmul_mm :: "mat \<Rightarrow> mat \<Rightarrow> error + mat" where
  "matmul_mm A B =
     (if nc A = nr B
      then Inr \<lparr>nr = nr A, nc = nc B,
                en = (\<lambda>i j. sum_list (map (\<lambda>k. en A i k * en B k j) [0..<nc A]))\<rparr>
      else Inl RuntimeError)"

text \<open>
  \<^verbatim>\<open>torch.matmul(A, x)\<close> and \<^verbatim>\<open>A @ x\<close> for a matrix of shape \<open>(r, c)\<close> and a column tensor of
  shape \<open>(k, 1)\<close>: a \<open>RuntimeError\<close> unless \<open>c = k\<close>, else the column of shape \<open>(r, 1)\<close>.
\<close>

definition matmul :: "mat \<Rightarrow> vec \<Rightarrow> error + vec" where
  "matmul A x =
     (if nc A = length x
      then Inr (map (\<lambda>i. sum_list (map (\<lambda>j. en A i j * x ! j) [0..<nc A])) [0..<nr A])
      else Inl RuntimeError)"

text \<open>
  An element-wise binary operation on two column tensors of shapes \<open>(k, 1)\<close> and
  \<open>(j, 1)\<close>, with torch's broadcasting: equal sizes combine entry by entry, a size of
  one is stretched to the other size, anything else is a \<open>RuntimeError\<close>.
\<close>

definition broadcast :: "(real \<Rightarrow> real \<Rightarrow> real) \<Rightarrow> vec \<Rightarrow> vec \<Rightarrow> error + vec" where
  "broadcast f xs ys =
     (if length xs = length ys then Inr (map2 f xs ys)
      else if length xs = 1 then Inr (map (f (hd xs)) ys)
      else if length ys = 1 then Inr (map (\<lambda>a. f a (hd ys)) xs)
      else Inl RuntimeError)"

text \<open>\<^verbatim>\<open>torch.zeros((k, 1))\<close>\<close>

definition zeros :: "nat \<Rightarrow> vec" where
  "zeros k = replicate k 0"

text \<open>\<^verbatim>\<open>torch.clamp(t, min=lo, max=hi)\<close> on one entry: \<open>hi\<close> wins when \<open>lo > hi\<close>.\<close>

definition clamp :: "real \<Rightarrow> real \<Rightarrow> real \<Rightarrow> real" where
  "clamp lo hi t = min (max t lo) hi"

section \<open>The ADMM solver (\<^verbatim>\<open>admm.py\<close>)\<close>

text \<open>
  \<^verbatim>\<open>admm.py\<close> imports the names \<open>m\<close> and \<open>H\<close> of the module \<^verbatim>\<open>utills\<close>: the signal
  dimension (\<open>m = 1000\<close> in the source) and the sensing matrix drawn at import time from
  a seeded generator. Both are read by the solver's methods, so they are the environment
  of the model; every statement below holds for all their values.
\<close>

record globals =
  utills_m :: nat
  utills_H :: mat

text \<open>The attributes of an \<^verbatim>\<open>ADMM\<close> instance, as \<^verbatim>\<open>__init__\<close> assigns them.\<close>

record ADMM =
  mu :: real
  max_iter :: int
  eps :: real
  rho :: real
  lambda :: real
  H :: mat
  left_term :: mat
  s :: vec
  u :: vec
  v :: vec

text \<open>
  The methods that the body of \<^verbatim>\<open>class ADMM\<close> defines, in the order of the source. The
  bases \<^verbatim>\<open>torch.nn.Module\<close> and \<^verbatim>\<open>LandscapeWrapper\<close> (module \<^verbatim>\<open>visualize_model\<close>) are not
  part of the two source files.
\<close>

definition ADMM_methods :: "string list" where
  "ADMM_methods =
     [''__init__'', ''shrinkage'', ''forward'', ''set_model_visualization_params'',
      ''loss_func'', ''copy'', ''create_ADMM'']"

text \<open>
  \<^verbatim>\<open>ADMM.__init__(self, H, mu, lambda_, max_iter, eps, rho)\<close>. The arguments are stored as
  they come; the only statement that can raise is the inversion
  \<^verbatim>\<open>torch.linalg.inv(H.T @ H + rho * eye(H.shape[1]))\<close>. The inversion routine is torch's,
  so it is the parameter \<open>linalg_inv\<close>.
\<close>

definition ADMM_init ::
  "(mat \<Rightarrow> error + mat) \<Rightarrow> mat \<Rightarrow> real \<Rightarrow> real \<Rightarrow> int \<Rightarrow> real \<Rightarrow> real \<Rightarrow> error + ADMM" where
  "ADMM_init linalg_inv H0 mu0 lambda0 max_iter0 eps0 rho0 =
     bind_e (matmul_mm (mat_T H0) H0) (\<lambda>hth.
     bind_e (mat_add hth (mat_scale rho0 (eye (nc H0)))) (\<lambda>a.
     bind_e (linalg_inv a) (\<lambda>l.
     Inr \<lparr>mu = mu0, max_iter = max_iter0, eps = eps0, rho = rho0, lambda = lambda0,
          H = H0, left_term = l,
          s = zeros (nc H0), u = zeros (nc H0), v = zeros (nc H0)\<rparr>)))"

text \<open>
  \<^verbatim>\<open>ADMM.create_ADMM(H, step_size, rho, max_iter, eps_threshold, lambda_)\<close>: the
  constructor with the arguments reordered.
\<close>

definition create_ADMM ::
  "(mat \<Rightarrow> error + mat) \<Rightarrow> mat \<Rightarrow> real \<Rightarrow> real \<Rightarrow> int \<Rightarrow> real \<Rightarrow> real \<Rightarrow> error + ADMM" where
  "create_ADMM linalg_inv H0 step_size rho0 max_iter0 eps_threshold lambda0 =
     ADMM_init linalg_inv H0 step_size lambda0 max_iter0 eps_threshold rho0"

text \<open>
  \<^verbatim>\<open>ADMM.shrinkage(x, beta)\<close>:
  \<^verbatim>\<open>torch.mul(torch.sign(x), torch.max(torch.abs(x) - beta, torch.zeros((m, 1))))\<close>, with
  the module-level \<open>m\<close>.
\<close>

definition shrinkage :: "globals \<Rightarrow> vec \<Rightarrow> real \<Rightarrow> error + vec" where
  "shrinkage G x beta =
     bind_e (broadcast max (map (\<lambda>a. \<bar>a\<bar> - beta) x) (zeros (utills_m G))) (\<lambda>t.
     broadcast (*) (map sgn x) t)"

text \<open>
  Lines 100 to 110 of \<^verbatim>\<open>forward\<close>: one update of \<open>s\<close>, \<open>v\<close> and \<open>u\<close>. The right-hand term
  reads the module-level \<open>H\<close> (\<^verbatim>\<open>torch.matmul(H.T, x)\<close>), not \<^verbatim>\<open>self.H\<close>.
  \<^verbatim>\<open>self.rho / (2 * self.lambda_)\<close> divides two Python floats.
\<close>

definition update :: "globals \<Rightarrow> ADMM \<Rightarrow> vec \<Rightarrow> error + ADMM" where
  "update G st x =
     bind_e (matmul (mat_T (utills_H G)) x) (\<lambda>hx.
     bind_e (broadcast (-) (v st) (u st)) (\<lambda>d.
     bind_e (broadcast (+) hx (map ((*) (rho st)) d)) (\<lambda>right_term.
     bind_e (matmul (left_term st) right_term) (\<lambda>s1.
     bind_e (broadcast (+) s1 (u st)) (\<lambda>a.
     bind_e (if 2 * lambda st = 0 then Inl ZeroDivisionError
             else Inr (rho st / (2 * lambda st))) (\<lambda>beta.
     bind_e (shrinkage G a beta) (\<lambda>v1.
     bind_e (broadcast (-) s1 v1) (\<lambda>e.
     bind_e (broadcast (+) (u st) (map ((*) (mu st)) e)) (\<lambda>u1.
     Inr (st\<lparr>s := s1, v := v1, u := u1\<rparr>))))))))))"

text \<open>Line 113: \<^verbatim>\<open>torch.sum(torch.abs(self.s - s_prev)) <= self.eps\<close>.\<close>

definition converged :: "ADMM \<Rightarrow> vec \<Rightarrow> error + bool" where
  "converged st s_prev =
     bind_e (broadcast (-) (s st) s_prev) (\<lambda>d.
     Inr (sum_list (map abs d) \<le> eps st))"

text \<open>Line 116: \<^verbatim>\<open>torch.sum((torch.matmul(self.H, self.s) - x) ** 2).item()\<close>.\<close>

definition recovery_error :: "ADMM \<Rightarrow> vec \<Rightarrow> error + real" where
  "recovery_error st x =
     bind_e (matmul (H st) (s st)) (\<lambda>hs.
     bind_e (broadcast (-) hs x) (\<lambda>d.
     Inr (sum_list (map (\<lambda>a. a ^ 2) d))))"

text \<open>
  The loop \<^verbatim>\<open>for k in range(self.max_iter)\<close> with \<open>k\<close> iterations left: the instance and
  the list \<open>recovery_errors\<close> are threaded through. The \<^verbatim>\<open>break\<close> leaves the loop before
  the \<^verbatim>\<open>append\<close>.
\<close>

fun forward_loop :: "globals \<Rightarrow> nat \<Rightarrow> ADMM \<Rightarrow> vec \<Rightarrow> real list \<Rightarrow> error + ADMM \<times> real list" where
  "forward_loop G 0 st x recovery_errors = Inr (st, recovery_errors)"
| "forward_loop G (Suc k) st x recovery_errors =
     bind_e (update G st x) (\<lambda>st1.
     bind_e (converged st1 (s st)) (\<lambda>c.
     if c then Inr (st1, recovery_errors)
     else bind_e (recovery_error st1 x) (\<lambda>r.
          forward_loop G k st1 x (recovery_errors @ [r]))))"

text \<open>
  \<^verbatim>\<open>ADMM.forward(self, x)\<close>: the mutated instance, and the returned pair
  \<^verbatim>\<open>(self.s, recovery_errors)\<close>. \<^verbatim>\<open>range\<close> of a non-positive \<open>max_iter\<close> is empty.
\<close>

definition forward :: "globals \<Rightarrow> ADMM \<Rightarrow> vec \<Rightarrow> error + ADMM \<times> vec \<times> real list" where
  "forward G st x =
     bind_e (forward_loop G (nat (max_iter st)) st x []) (\<lambda>(st1, recovery_errors).
     Inr (st1, s st1, recovery_errors))"

text \<open>
  Three notions for stating what the loop does, iteration by iteration (iterations are
  counted from 0): the instance after \<open>i\<close> executions of lines 100 to 110, the outcome of the
  test of line 113 in iteration \<open>i\<close>, and the value that line 116 computes in
  iteration \<open>i\<close>.
\<close>

fun after_updates :: "globals \<Rightarrow> vec \<Rightarrow> nat \<Rightarrow> ADMM \<Rightarrow> error + ADMM" where
  "after_updates G x 0 st = Inr st"
| "after_updates G x (Suc i) st = bind_e (update G st x) (after_updates G x i)"

definition converged_at :: "globals \<Rightarrow> vec \<Rightarrow> ADMM \<Rightarrow> nat \<Rightarrow> error + bool" where
  "converged_at G x st i =
     bind_e (after_updates G x i st) (\<lambda>a.
     bind_e (update G a x) (\<lambda>b. converged b (s a)))"

definition residual_at :: "globals \<Rightarrow> vec \<Rightarrow> ADMM \<Rightarrow> nat \<Rightarrow> error + real" where
  "residual_at G x st i =
     bind_e (after_updates G x (Suc i) st) (\<lambda>b. recovery_error b x)"

text \<open>
  Two calls \<^verbatim>\<open>model(x)\<close> in succession on one instance, as \<^verbatim>\<open>execute\<close> and \<^verbatim>\<open>BIM\<close> make them:
  the second call starts from the attributes the first one left.
\<close>

definition forward_twice :: "globals \<Rightarrow> ADMM \<Rightarrow> vec \<Rightarrow> error + ADMM \<times> vec \<times> real list" where
  "forward_twice G st x = bind_e (forward G st x) (\<lambda>(st1, est, tr). forward G st1 x)"

text \<open>
  \<^verbatim>\<open>ADMM.loss_func(self, s, x_sig)\<close>:
  \<^verbatim>\<open>0.5 * torch.sum((torch.matmul(self.H, s) - x_sig) ** 2).item() + self.rho * s.norm(p=1).item()\<close>.
  It assigns no attribute, so it returns a number only.
\<close>

definition loss_func :: "ADMM \<Rightarrow> vec \<Rightarrow> vec \<Rightarrow> error + real" where
  "loss_func st s_est x_sig =
     bind_e (matmul (H st) s_est) (\<lambda>hs.
     bind_e (broadcast (-) hs x_sig) (\<lambda>d.
     Inr (0.5 * sum_list (map (\<lambda>a. a ^ 2) d) + rho st * sum_list (map abs s_est))))"

section \<open>The attack (\<^verbatim>\<open>utills.py\<close>)\<close>

text \<open>
  Lines 71 to 74 of \<^verbatim>\<open>BIM\<close> compute \<^verbatim>\<open>torch.autograd.grad(cost, adv_x)[0]\<close>, the gradient with
  respect to \<open>adv_x\<close> of the mean squared error between \<open>s_gt\<close> and the estimate that
  \<^verbatim>\<open>model(adv_x)\<close> returned. Differentiation is torch's: it is the parameter \<open>grad\<close>, a
  function of the instance before the call, of \<open>adv_x\<close> and of \<open>s_gt\<close>, that raises when
  torch does (\<open>adv_x\<close> not reachable from \<open>cost\<close> in the graph).

  The loop \<^verbatim>\<open>for step in range(steps)\<close> with \<open>k\<close> steps left. The local \<open>delta\<close> is
  unbound until the first step assigns it.
\<close>

fun BIM_loop ::
  "globals \<Rightarrow> (ADMM \<Rightarrow> vec \<Rightarrow> vec \<Rightarrow> error + vec) \<Rightarrow> vec \<Rightarrow> vec \<Rightarrow> real \<Rightarrow> real \<Rightarrow>
   nat \<Rightarrow> ADMM \<Rightarrow> vec \<Rightarrow> vec option \<Rightarrow> error + ADMM \<times> vec \<times> vec option" where
  "BIM_loop G grad original_x s_gt epsilon alpha 0 model adv_x delta =
     Inr (model, adv_x, delta)"
| "BIM_loop G grad original_x s_gt epsilon alpha (Suc k) model adv_x delta =
     bind_e (forward G model adv_x) (\<lambda>(model1, s_hat, errs).
     bind_e (grad model adv_x s_gt) (\<lambda>g.
     let delta1 = map (\<lambda>a. alpha * sgn a) g in
     bind_e (broadcast (+) adv_x delta1) (\<lambda>adv1.
     bind_e (broadcast (-) adv1 original_x) (\<lambda>d.
     let eta = map (clamp (- epsilon) epsilon) d in
     bind_e (broadcast (+) original_x eta) (\<lambda>adv2.
     BIM_loop G grad original_x s_gt epsilon alpha k model1 adv2 (Some delta1))))))"

text \<open>
  \<^verbatim>\<open>BIM(model, x, s_gt, eps, alpha, steps)\<close>: the mutated model and the returned pair
  \<^verbatim>\<open>(adv_x, delta)\<close>. Reading the unbound \<open>delta\<close> at the \<^verbatim>\<open>return\<close> raises
  \<open>UnboundLocalError\<close>.
\<close>

definition BIM ::
  "globals \<Rightarrow> (ADMM \<Rightarrow> vec \<Rightarrow> vec \<Rightarrow> error + vec) \<Rightarrow> ADMM \<Rightarrow> vec \<Rightarrow> vec \<Rightarrow> real \<Rightarrow> real \<Rightarrow> int \<Rightarrow>
   error + ADMM \<times> vec \<times> vec" where
  "BIM G grad model x s_gt epsilon alpha steps =
     bind_e (BIM_loop G grad x s_gt epsilon alpha (nat steps) model x None)
       (\<lambda>(model1, adv_x, delta).
          case delta of None \<Rightarrow> Inl UnboundLocalError
          | Some d \<Rightarrow> Inr (model1, adv_x, d))"

text \<open>
  \<^verbatim>\<open>torch.autograd.grad(cost, adv_x)\<close> as \<^verbatim>\<open>BIM\<close> calls it, with \<^verbatim>\<open>allow_unused\<close> at its
  default: it raises \<open>RuntimeError\<close> when \<open>cost\<close> is no function of \<open>adv_x\<close>, and returns the
  derivative otherwise. \<open>cost\<close> is the loss of \<open>s_gt\<close> and of \<^verbatim>\<open>self.s\<close> as \<^verbatim>\<open>forward\<close> leaves
  it. With at least one iteration, lines 103 and 104 make \<^verbatim>\<open>self.s\<close> a function of the
  argument of \<^verbatim>\<open>forward\<close>; with none (\<open>max_iter \<le> 0\<close>) \<^verbatim>\<open>forward\<close> returns the attribute as
  it found it. The values of the derivative are the parameter \<open>dcost\<close>.
\<close>

definition autograd_grad ::
  "(ADMM \<Rightarrow> vec \<Rightarrow> vec \<Rightarrow> vec) \<Rightarrow> ADMM \<Rightarrow> vec \<Rightarrow> vec \<Rightarrow> error + vec" where
  "autograd_grad dcost model adv_x s_gt =
     (if max_iter model \<le> 0 then Inl RuntimeError else Inr (dcost model adv_x s_gt))"

subsection \<open>The projection in float32\<close>

text \<open>
  The tensors of the program hold 32-bit floats (\<^verbatim>\<open>.float()\<close> in \<^verbatim>\<open>utills.py\<close>). Where the
  rounding decides a statement, the arithmetic is modelled entry by entry: \<open>rne\<close> rounds
  to the nearest integer, ties to even, and \<open>fl32\<close> rounds a real number to the nearest
  number with a significand of 24 bits. The range of the exponent is not bounded:
  overflow and underflow are not modelled.
\<close>

definition rne :: "real \<Rightarrow> int" where
  "rne t =
     (let f = \<lfloor>t\<rfloor> in
      if t - of_int f < 1 / 2 then f
      else if 1 / 2 < t - of_int f then f + 1
      else if even f then f else f + 1)"

definition fl32 :: "real \<Rightarrow> real" where
  "fl32 r =
     (if r = 0 then 0
      else let q = 2 powr of_int (\<lfloor>log 2 \<bar>r\<bar>\<rfloor> - 23) in of_int (rne (r / q)) * q)"

text \<open>
  Lines 77 to 87 of \<^verbatim>\<open>BIM\<close> on one entry, in float32: \<open>delta = alpha * sign g\<close> (the product
  of the float \<open>alpha\<close> with 1, 0 or -1 is exact), \<^verbatim>\<open>adv_x + delta\<close>,
  \<^verbatim>\<open>torch.clamp(adv_x - original_x, min=-eps, max=eps)\<close> with the two bounds converted to
  float32, and \<^verbatim>\<open>original_x + eta\<close>.
\<close>

definition BIM_entry32 :: "real \<Rightarrow> real \<Rightarrow> real \<Rightarrow> real \<Rightarrow> real \<Rightarrow> real" where
  "BIM_entry32 alpha epsilon original adv g =
     (let delta = fl32 alpha * sgn g;
          adv1 = fl32 (adv + delta);
          eta = clamp (fl32 (- epsilon)) (fl32 epsilon) (fl32 (adv1 - original))
      in fl32 (original + eta))"

section \<open>Concrete instances\<close>

text \<open>
  What the caller of a method receives: the model threads the instance through every
  call, the Python caller sees the returned value only.
\<close>

definition returned :: "error + ADMM \<times> 'a \<Rightarrow> error + 'a" where
  "returned r = map_sum id snd r"

text \<open>
  A small setting on which the definitions are run: signal and observation of dimension
  two, the identity as sensing matrix, \<open>rho = 1\<close>, hence the cached inverse
  \<open>(H\<^sup>T H + rho I)\<^sup>-\<^sup>1 = I / 2\<close>, and one iteration per call.
\<close>

definition I2 :: mat where
  "I2 = mat_of_rows [[1, 0], [0, 1]]"

definition G_ex :: globals where
  "G_ex = \<lparr>utills_m = 2, utills_H = I2\<rparr>"

definition model_ex :: ADMM where
  "model_ex =
     \<lparr>mu = 1 / 2, max_iter = 1, eps = 1 / 1000, rho = 1, lambda = 1,
      H = I2, left_term = mat_of_rows [[1 / 2, 0], [0, 1 / 2]],
      s = zeros 2, u = zeros 2, v = zeros 2\<rparr>"

definition x_ex :: vec where
  "x_ex = [3, - 1]"

text \<open>The same instance with an empty iteration budget.\<close>

definition model_no_iter :: ADMM where
  "model_no_iter = model_ex\<lparr>max_iter := 0\<rparr>"

text \<open>
  The same instance with a budget of six iterations and a tolerance of \<open>1 / 4\<close>, which
  the third iteration meets; and with a budget of three iterations, none of which meets
  the tolerance \<open>1 / 1000\<close>.
\<close>

definition model_conv :: ADMM where
  "model_conv = model_ex\<lparr>max_iter := 6, eps := 1 / 4\<rparr>"

definition model_3 :: ADMM where
  "model_3 = model_ex\<lparr>max_iter := 3\<rparr>"

text \<open>
  The gradient for this setting. With no iteration the estimate does not depend on
  \<open>adv_x\<close> and torch raises. With one iteration the estimate is
  \<open>left_term (H\<^sup>T adv_x + rho (v - u))\<close>, whose derivative in \<open>adv_x\<close> is \<open>I / 2\<close>, so the
  gradient of the mean of the two squared differences is \<open>(s_hat - s_gt) / 2\<close>; it has
  the shape of \<open>adv_x\<close>, as every gradient that torch returns.
\<close>

definition grad_ex :: "ADMM \<Rightarrow> vec \<Rightarrow> vec \<Rightarrow> error + vec" where
  "grad_ex model adv_x s_gt =
     (if max_iter model \<le> 0 then Inl RuntimeError
      else bind_e (forward G_ex model adv_x) (\<lambda>(model1, s_hat, errs).
           bind_e (broadcast (\<lambda>a b. (a - b) / 2) s_hat s_gt) (\<lambda>g.
           if length g = length adv_x then Inr g else Inl RuntimeError)))"

text \<open>
  The values of that gradient as a total function, for \<open>autograd_grad\<close>: with
  \<open>left_term = I / 2\<close> and \<open>H = I\<close> the estimate after one iteration is
  \<open>(adv_x + rho (v - u)) / 2\<close>.
\<close>

definition dcost_ex :: "ADMM \<Rightarrow> vec \<Rightarrow> vec \<Rightarrow> vec" where
  "dcost_ex model adv_x s_gt =
     map2 (\<lambda>h t. (h - t) / 2)
       (map2 (\<lambda>a w. (a + rho model * w) / 2) adv_x (map2 (-) (v model) (u model))) s_gt"

text \<open>
  \<^verbatim>\<open>torch.linalg.inv\<close> on a matrix of shape \<open>(1, 1)\<close>: the reciprocal of the entry, and
  \<open>LinAlgError\<close> when the entry is zero. Other shapes are not computed here.
\<close>

definition inv_1x1 :: "mat \<Rightarrow> error + mat" where
  "inv_1x1 A =
     (if nr A = 1 \<and> nc A = 1 \<and> en A 0 0 \<noteq> 0 then Inr (mat_of_rows [[1 / en A 0 0]])
      else Inl LinAlgError)"

text \<open>The five hyperparameters that an instance stores.\<close>

definition hyperparameters :: "ADMM \<Rightarrow> real \<times> real \<times> int \<times> real \<times> real" where
  "hyperparameters a = (mu a, lambda a, max_iter a, eps a, rho a)"

text \<open>A setting of dimension one: the sensing matrix \<open>(1)\<close>.\<close>

definition H_1 :: mat where
  "H_1 = mat_of_rows [[1]]"

text \<open>
  The update as the specification words it, for comparison with \<open>update\<close>:
  \<open>right_term = H\<^sup>T x + rho (v - u)\<close> with the sensing matrix of the instance, then
  \<open>s = left_term right_term\<close>, then \<open>v = shrink (s + u) (rho / (2 lambda))\<close> with
  \<open>shrink x beta = sign x * max (|x| - beta) 0\<close> entry by entry, then
  \<open>u = u + mu (s - v)\<close>.
\<close>

definition shrink_spec :: "vec \<Rightarrow> real \<Rightarrow> vec" where
  "shrink_spec x beta = map (\<lambda>a. sgn a * max (\<bar>a\<bar> - beta) 0) x"

definition update_spec :: "ADMM \<Rightarrow> vec \<Rightarrow> error + ADMM" where
  "update_spec st x =
     bind_e (matmul (mat_T (H st)) x) (\<lambda>hx.
     bind_e (broadcast (-) (v st) (u st)) (\<lambda>d.
     bind_e (broadcast (+) hx (map ((*) (rho st)) d)) (\<lambda>right_term.
     bind_e (matmul (left_term st) right_term) (\<lambda>s1.
     bind_e (broadcast (+) s1 (u st)) (\<lambda>a.
     let v1 = shrink_spec a (rho st / (2 * lambda st)) in
     bind_e (broadcast (-) s1 v1) (\<lambda>e.
     bind_e (broadcast (+) (u st) (map ((*) (mu st)) e)) (\<lambda>u1.
     Inr (st\<lparr>s := s1, v := v1, u := u1\<rparr>))))))))"

text \<open>
  An instance constructed on the sensing matrix \<open>2 I\<close>, while the module-level \<open>H\<close> of
  \<open>G_ex\<close> is \<open>I\<close>: its cached inverse is \<open>(4 I + I)\<^sup>-\<^sup>1 = I / 5\<close>.
\<close>

definition model_2H :: ADMM where
  "model_2H = model_ex\<lparr>H := mat_of_rows [[2, 0], [0, 2]],
                        left_term := mat_of_rows [[1 / 5, 0], [0, 1 / 5]]\<rparr>"

text \<open>The perturbation budget as a predicate on an adversarial observation.\<close>

definition in_budget :: "real \<Rightarrow> vec \<Rightarrow> vec \<Rightarrow> bool" where
  "in_budget e a x \<longleftrightarrow> length a = length x \<and> (\<forall>i<length x. \<bar>a ! i - x ! i\<bar> \<le> e)"

section \<open>Exceptions and shapes\<close>

lemma bind_e_Inl [simp]: "bind_e (Inl e) f = Inl e"
  by (simp add: bind_e_def)

lemma bind_e_Inr [simp]: "bind_e (Inr a) f = f a"
  by (simp add: bind_e_def)

lemma bind_e_eq_Inr: "bind_e r f = Inr b \<longleftrightarrow> (\<exists>a. r = Inr a \<and> f a = Inr b)"
  by (cases r) simp_all

lemma broadcast_same: "length xs = length ys \<Longrightarrow> broadcast f xs ys = Inr (map2 f xs ys)"
  by (simp add: broadcast_def)

lemma returned_Inr: "returned r = Inr b \<Longrightarrow> \<exists>st. r = Inr (st, b)"
  by (cases r) (auto simp: returned_def)


section \<open>Running the definitions\<close>

text \<open>
  Concrete runs are computed by rewriting with the definitions. The congruence rule makes
  the rewriting follow the program: the continuation of a statement is not touched before
  the statement has produced its value.
\<close>

lemma bind_e_weak_cong: "r = r' \<Longrightarrow> bind_e r f = bind_e r' f"
  by simp

lemmas run_defs = returned_def forward_def update_def converged_def recovery_error_def
  shrinkage_def matmul_def broadcast_def mat_T_def mat_of_rows_def zeros_def clamp_def
  BIM_def I2_def G_ex_def model_ex_def x_ex_def grad_ex_def upt_rec eval_nat_numeral Let_def

section \<open>The attack stays within its budget\<close>

lemma clamp_bound: "0 \<le> e \<Longrightarrow> \<bar>clamp (- e) e t\<bar> \<le> e"
  by (auto simp: clamp_def min_def max_def)

lemma BIM_step_budget:
  assumes e: "0 \<le> epsilon" and la: "length adv_x = length x" and lg: "length g = length adv_x"
    and a1: "broadcast (+) adv_x (map (\<lambda>a. alpha * sgn a) g) = Inr adv1"
    and d: "broadcast (-) adv1 x = Inr d"
    and a2: "broadcast (+) x (map (clamp (- epsilon) epsilon) d) = Inr adv2"
  shows "in_budget epsilon adv2 x"
proof -
  from a1 lg have adv1: "length adv1 = length x" using la by (auto simp: broadcast_same)
  with d have dd: "d = map2 (-) adv1 x" by (simp add: broadcast_same)
  with adv1 have ld: "length d = length x" by simp
  with a2 have "adv2 = map2 (+) x (map (clamp (- epsilon) epsilon) d)" by (simp add: broadcast_same)
  with ld e show ?thesis by (auto simp: in_budget_def clamp_bound)
qed

lemma BIM_loop_budget:
  assumes e: "0 \<le> epsilon"
    and sh: "\<forall>m a g. grad m a s_gt = Inr g \<longrightarrow> length g = length a"
  shows "in_budget epsilon adv_x x \<Longrightarrow>
     BIM_loop G grad x s_gt epsilon alpha k model adv_x delta = Inr (model1, adv1, delta1) \<Longrightarrow>
     in_budget epsilon adv1 x"
proof (induction k arbitrary: model adv_x delta)
  case 0
  then show ?case by simp
next
  case (Suc k)
  from Suc.prems(2) obtain m1 g a1 d a2 where
    g: "grad model adv_x s_gt = Inr g"
    and a1: "broadcast (+) adv_x (map (\<lambda>a. alpha * sgn a) g) = Inr a1"
    and d: "broadcast (-) a1 x = Inr d"
    and a2: "broadcast (+) x (map (clamp (- epsilon) epsilon) d) = Inr a2"
    and rest: "BIM_loop G grad x s_gt epsilon alpha k m1 a2 (Some (map (\<lambda>a. alpha * sgn a) g)) = Inr (model1, adv1, delta1)"
    by (auto simp: bind_e_eq_Inr Let_def split: prod.splits)
  from sh g have lg: "length g = length adv_x" by blast
  from Suc.prems(1) have la: "length adv_x = length x" by (simp add: in_budget_def)
  have "in_budget epsilon a2 x" by (rule BIM_step_budget[OF e la lg a1 d a2])
  then show ?case using Suc.IH rest by blast
qed

lemma BIM_returns_loop:
  "BIM G grad model x s_gt epsilon alpha steps = Inr (model1, adv_x, delta) \<Longrightarrow>
   BIM_loop G grad x s_gt epsilon alpha (nat steps) model x None = Inr (model1, adv_x, Some delta)"
  by (auto simp: BIM_def bind_e_eq_Inr split: prod.splits option.splits)

lemma grad_ex_shape: "grad_ex m a t = Inr g \<Longrightarrow> length g = length a"
  by (auto simp: grad_ex_def bind_e_eq_Inr split: if_splits prod.splits)

text \<open>
  In exact arithmetic every adversarial observation that the attack returns has the shape
  of the original observation and differs from it by at most \<open>eps\<close> in every component.
\<close>

lemma BIM_within_budget_exact:
  assumes "0 \<le> epsilon"
    and "\<forall>m a g. grad m a s_gt = Inr g \<longrightarrow> length g = length a"
    and "BIM G grad model x s_gt epsilon alpha steps = Inr (model1, adv_x, delta)"
  shows "length adv_x = length x \<and> (\<forall>i<length x. \<bar>adv_x ! i - x ! i\<bar> \<le> epsilon)"
proof -
  have "in_budget epsilon x x" using assms(1) by (simp add: in_budget_def)
  from BIM_loop_budget[OF assms(1,2) this BIM_returns_loop[OF assms(3)]]
  show ?thesis by (simp add: in_budget_def)
qed

subsection \<open>Rounding\<close>

lemma rne_error: "\<bar>of_int (rne t) - t\<bar> \<le> 1 / 2"
  unfolding rne_def Let_def by (auto simp: abs_if) linarith+

lemma rne_value: "\<bar>t - of_int n\<bar> < 1 / 2 \<Longrightarrow> rne t = n"
proof -
  assume a: "\<bar>t - of_int n\<bar> < 1 / 2"
  have e: "\<bar>of_int (rne t) - t\<bar> \<le> 1 / 2" by (rule rne_error)
  from a e have "\<bar>of_int (rne t) - (of_int n :: real)\<bar> < 1" by linarith
  then have "\<bar>rne t - n\<bar> < 1" by (metis of_int_diff of_int_abs of_int_less_1_iff)
  then show ?thesis by linarith
qed

lemma fl32_error: "\<bar>fl32 r - r\<bar> \<le> \<bar>r\<bar> / 2 ^ 24"
proof (cases "r = 0")
  case True
  then show ?thesis by (simp add: fl32_def)
next
  case False
  define k where "k = \<lfloor>log 2 \<bar>r\<bar>\<rfloor>"
  define q :: real where "q = 2 powr of_int (k - 23)"
  have qpos: "0 < q" by (simp add: q_def)
  from False have "0 < \<bar>r\<bar>" by simp
  then have lo: "2 powr of_int k \<le> \<bar>r\<bar>"
    using floor_log_eq_powr_iff[of "\<bar>r\<bar>" 2 k] by (simp add: k_def)
  have qk: "q = 2 powr of_int k / 2 ^ 23"
    by (simp add: q_def powr_diff)
  have f: "fl32 r = of_int (rne (r / q)) * q"
    using False by (simp add: fl32_def k_def q_def Let_def)
  have "of_int (rne (r / q)) * q - r = (of_int (rne (r / q)) - r / q) * q"
    using qpos by (simp add: left_diff_distrib)
  then have "\<bar>fl32 r - r\<bar> = \<bar>of_int (rne (r / q)) - r / q\<bar> * q"
    using qpos by (simp add: f abs_mult)
  also have "\<dots> \<le> 1 / 2 * q"
    using rne_error[of "r / q"] qpos by (intro mult_right_mono) simp_all
  also have "\<dots> = 2 powr of_int k / 2 ^ 24" by (simp add: qk)
  also have "\<dots> \<le> \<bar>r\<bar> / 2 ^ 24" using lo by (simp add: divide_right_mono)
  finally show ?thesis .
qed

lemma fl32_value:
  assumes "q = 2 powr of_int (k - 23)"
    and "2 powr of_int k \<le> \<bar>r\<bar>" and "\<bar>r\<bar> < 2 powr of_int (k + 1)"
    and "\<bar>r / q - of_int n\<bar> < 1 / 2"
  shows "fl32 r = of_int n * q"
proof -
  have "0 < (2::real) powr of_int k" by simp
  with assms(2) have pos: "0 < \<bar>r\<bar>" by linarith
  then have "\<lfloor>log 2 \<bar>r\<bar>\<rfloor> = k"
    using floor_log_eq_powr_iff[of "\<bar>r\<bar>" 2 k] assms(2,3) by simp
  with pos assms(1) have "fl32 r = of_int (rne (r / q)) * q"
    by (auto simp: fl32_def Let_def)
  with rne_value[OF assms(4)] show ?thesis by simp
qed

lemma fl32_alpha: "fl32 (1 / 100) = 5368709 / 536870912"
  using fl32_value[of "1 / 2 ^ 30" "- 7" "1 / 100" 10737418]
  by (simp add: powr_minus_divide)

lemma fl32_eps: "fl32 (5 / 1000) = 5368709 / 1073741824"
  using fl32_value[of "1 / 2 ^ 31" "- 8" "5 / 1000" 10737418]
  by (simp add: powr_minus_divide)

lemma fl32_neg_eps: "fl32 (- (5 / 1000)) = - (5368709 / 1073741824)"
  using fl32_value[of "1 / 2 ^ 31" "- 8" "- (5 / 1000)" "- 10737418"]
  by (simp add: powr_minus_divide)

lemma fl32_adv1: "fl32 (3 + 5368709 / 536870912) = 12624855 / 4194304"
  using fl32_value[of "1 / 2 ^ 22" 1 "3 + 5368709 / 536870912" 12624855]
  by (simp add: powr_minus_divide)

lemma fl32_d: "fl32 (12624855 / 4194304 - 3) = 41943 / 4194304"
  using fl32_value[of "1 / 2 ^ 30" "- 7" "12624855 / 4194304 - 3" 10737408]
  by (simp add: powr_minus_divide)

lemma fl32_adv2: "fl32 (3 + 5368709 / 1073741824) = 3150971 / 1048576"
  using fl32_value[of "1 / 2 ^ 22" 1 "3 + 5368709 / 1073741824" 12603884]
  by (simp add: powr_minus_divide)

lemma clamp_value:
  "clamp (- (5368709 / 1073741824)) (5368709 / 1073741824) (41943 / 4194304)
     = 5368709 / 1073741824"
  by (simp add: clamp_def)

lemma entry_value: "BIM_entry32 (1 / 100) (5 / 1000) 3 3 1 = 3150971 / 1048576"
proof -
  have "BIM_entry32 (1 / 100) (5 / 1000) 3 3 1 =
      fl32 (3 + clamp (fl32 (- (5 / 1000))) (fl32 (5 / 1000))
                  (fl32 (fl32 (3 + fl32 (1 / 100) * sgn 1) - 3)))"
    by (simp only: BIM_entry32_def Let_def)
  also have "\<dots> = 3150971 / 1048576"
    by (simp only: sgn_one mult.right_neutral fl32_alpha fl32_adv1 fl32_d fl32_eps
        fl32_neg_eps clamp_value fl32_adv2)
  finally show ?thesis .
qed


lemma clamp_abs: "\<bar>clamp lo hi t\<bar> \<le> max \<bar>lo\<bar> \<bar>hi\<bar>"
  by (auto simp: clamp_def min_def max_def)

lemma fl32_abs: "\<bar>fl32 r\<bar> \<le> \<bar>r\<bar> * (1 + 1 / 2 ^ 24)"
proof -
  have "\<bar>fl32 r\<bar> \<le> \<bar>r\<bar> + \<bar>fl32 r - r\<bar>" by linarith
  also have "\<dots> \<le> \<bar>r\<bar> + \<bar>r\<bar> / 2 ^ 24" using fl32_error[of r] by simp
  also have "\<dots> = \<bar>r\<bar> * (1 + 1 / 2 ^ 24)" by (simp add: distrib_left)
  finally show ?thesis .
qed

text \<open>
  Claim C4, as the code has it: the perturbation \<open>eta\<close> that is added to the original
  observation is clamped into the float32 values of \<open>-eps\<close> and \<open>eps\<close>, and the returned
  entry is the float32 sum \<open>original + eta\<close>. For \<open>eps \<ge> 0\<close> it differs from the original
  entry by at most \<open>eps (1 + 2\<^sup>-\<^sup>2\<^sup>4)\<close> and half a unit in the last place of the sum.
\<close>

theorem BIM_entry32_budget:
  assumes "0 \<le> epsilon"
  shows "\<bar>BIM_entry32 alpha epsilon original adv g - original\<bar>
           \<le> epsilon * (1 + 1 / 2 ^ 24) + (\<bar>original\<bar> + epsilon * (1 + 1 / 2 ^ 24)) / 2 ^ 24"
proof -
  define E where "E = epsilon * (1 + 1 / 2 ^ 24)"
  define eta where
    "eta = clamp (fl32 (- epsilon)) (fl32 epsilon)
             (fl32 (fl32 (adv + fl32 alpha * sgn g) - original))"
  have r: "BIM_entry32 alpha epsilon original adv g = fl32 (original + eta)"
    by (simp add: BIM_entry32_def Let_def eta_def)
  from assms fl32_abs[of epsilon] fl32_abs[of "- epsilon"]
  have "\<bar>fl32 epsilon\<bar> \<le> E" and "\<bar>fl32 (- epsilon)\<bar> \<le> E"
    by (simp_all add: E_def)
  with clamp_abs[of "fl32 (- epsilon)" "fl32 epsilon"] have eta: "\<bar>eta\<bar> \<le> E"
    unfolding eta_def by (meson max.bounded_iff order_trans)
  have "\<bar>fl32 (original + eta) - original\<bar>
          \<le> \<bar>fl32 (original + eta) - (original + eta)\<bar> + \<bar>eta\<bar>"
    by linarith
  also have "\<dots> \<le> \<bar>original + eta\<bar> / 2 ^ 24 + \<bar>eta\<bar>"
    using fl32_error[of "original + eta"] by simp
  also have "\<dots> \<le> (\<bar>original\<bar> + E) / 2 ^ 24 + E"
  proof -
    have "\<bar>original + eta\<bar> \<le> \<bar>original\<bar> + E" using eta by linarith
    then have "\<bar>original + eta\<bar> / 2 ^ 24 \<le> (\<bar>original\<bar> + E) / 2 ^ 24"
      by (rule divide_right_mono) simp
    with eta show ?thesis by linarith
  qed
  finally show ?thesis by (simp add: r E_def add.commute)
qed

theorem BIM_entry32_budget_witness:
  "(0::real) \<le> 5 / 1000 \<and>
   BIM_entry32 (1 / 100) (5 / 1000) 3 3 1 = 3150971 / 1048576 \<and>
   \<bar>BIM_entry32 (1 / 100) (5 / 1000) 3 3 1 - 3\<bar>
     \<le> 5 / 1000 * (1 + 1 / 2 ^ 24) + (\<bar>3\<bar> + 5 / 1000 * (1 + 1 / 2 ^ 24)) / 2 ^ 24"
proof -
  have e: "(0::real) \<le> 5 / 1000" by simp
  from e entry_value BIM_entry32_budget[OF e, of "1 / 100" 3 3 1] show ?thesis
    by (intro conjI)
qed

text \<open>
  Claim C4 fails by rounding: from the original entry 3, one step with \<open>alpha = 0.01\<close> and
  \<open>eps = 0.005\<close> (the defaults of the program and its smallest budget) returns
  \<open>3150971 / 2\<^sup>2\<^sup>0\<close>, which is \<open>5243 / 2\<^sup>2\<^sup>0 > 0.005\<close> away from 3.
\<close>

theorem BIM_entry32_exceeds_eps_counterexample:
  "\<not> \<bar>BIM_entry32 (1 / 100) (5 / 1000) 3 3 1 - 3\<bar> \<le> 5 / 1000"
  unfolding entry_value by simp

text \<open>
  Claim C5: with \<open>eps = 0\<close> the adversarial observation that the attack returns is the
  original observation, for every solver, ground truth, step magnitude and number of
  steps.
\<close>

theorem BIM_eps_zero_noop:
  assumes "\<forall>m a g. grad m a s_gt = Inr g \<longrightarrow> length g = length a"
    and "BIM G grad model x s_gt 0 alpha steps = Inr (model1, adv_x, delta)"
  shows "adv_x = x"
proof -
  have "in_budget 0 x x" by (simp add: in_budget_def)
  from BIM_loop_budget[OF _ assms(1) this BIM_returns_loop[OF assms(2)]]
  have "in_budget 0 adv_x x" by simp
  then show ?thesis by (auto simp: in_budget_def intro: nth_equalityI)
qed

theorem BIM_eps_zero_noop_witness:
  "returned (BIM G_ex grad_ex model_ex x_ex [1, 0] 0 (1 / 4) 2) = Inr (x_ex, [1 / 4, - 1 / 4])"
proof -
  have r: "returned (BIM G_ex grad_ex model_ex x_ex [1, 0] 0 (1 / 4) 2)
          = Inr ([3, - 1], [1 / 4, - 1 / 4])"
    by (simp add: run_defs cong: bind_e_weak_cong)
  from returned_Inr[OF r] obtain m1 where
    b: "BIM G_ex grad_ex model_ex x_ex [1, 0] 0 (1 / 4) 2 = Inr (m1, [3, - 1], [1 / 4, - 1 / 4])" ..
  have sh: "\<forall>m a g. grad_ex m a [1, 0] = Inr g \<longrightarrow> length g = length a"
    by (intro allI impI) (rule grad_ex_shape)
  from BIM_eps_zero_noop[OF sh b] have "[3, - 1] = x_ex" .
  with r show ?thesis by simp
qed

section \<open>Failures of the attack\<close>

lemma BIM_loop_delta_bound:
  "BIM_loop G grad x0 s_gt epsilon alpha k model adv_x (Some d0) = Inr (m1, a1, d1) \<Longrightarrow> d1 \<noteq> None"
proof (induction k arbitrary: model adv_x d0)
  case 0
  then show ?case by auto
next
  case (Suc k)
  then show ?case
    by (auto simp: bind_e_eq_Inr Let_def split: prod.splits)
qed

lemma BIM_loop_Suc_delta:
  "BIM_loop G grad x0 s_gt epsilon alpha (Suc k) model adv_x d0 = Inr (m1, a1, d1) \<Longrightarrow> d1 \<noteq> None"
  by (auto simp: bind_e_eq_Inr Let_def split: prod.splits dest: BIM_loop_delta_bound)

text \<open>The loop over \<open>j + k\<close> steps is the loop over \<open>j\<close> steps followed by \<open>k\<close> more.\<close>

lemma BIM_loop_add:
  "BIM_loop G grad x0 s_gt epsilon alpha (j + k) model adv_x d0 =
     bind_e (BIM_loop G grad x0 s_gt epsilon alpha j model adv_x d0) (\<lambda>(m, a, d).
       BIM_loop G grad x0 s_gt epsilon alpha k m a d)"
proof (induction j arbitrary: model adv_x d0)
  case 0
  then show ?case by simp
next
  case (Suc j)
  then show ?case
    by (simp add: bind_e_def Let_def split: sum.splits prod.splits)
qed

lemma BIM_loop_grad_error:
  assumes "forward G model adv_x = Inr r" and "grad model adv_x s_gt = Inl e"
  shows "BIM_loop G grad x0 s_gt epsilon alpha (Suc k) model adv_x d0 = Inl e"
  using assms by (simp split: prod.splits)

lemma forward_no_iteration:
  "max_iter model \<le> 0 \<Longrightarrow> forward G model x = Inr (model, s model, [])"
  by (simp add: forward_def)

lemma BIM_loop_last_step:
  assumes "BIM_loop G (autograd_grad dcost) x0 s_gt epsilon alpha (Suc 0) mj aj dj
             = Inr (m1, a1, d1)"
  shows "0 < max_iter mj \<and> d1 = Some (map (\<lambda>t. alpha * sgn t) (dcost mj aj s_gt))"
  using assms
  by (auto simp: bind_e_eq_Inr Let_def autograd_grad_def split: prod.splits if_splits)

text \<open>
  Claim C9, as the code has it: when the solver runs no iteration its estimate is no
  function of the adversarial observation, \<^verbatim>\<open>torch.autograd.grad\<close> raises \<open>RuntimeError\<close>,
  the attack does not catch it and fails with that \<open>RuntimeError\<close> in its first step. And
  the attack puts nothing in the place of a missing gradient: when it returns, the solver
  runs iterations, and the returned \<open>delta\<close> is \<open>alpha\<close> times the sign of the gradient
  taken at the instance and the adversarial observation that the run had reached before
  its last step.
\<close>

theorem BIM_no_gradient_raises:
  "(max_iter model \<le> 0 \<and> 0 < steps \<longrightarrow>
      BIM G (autograd_grad dcost) model x s_gt epsilon alpha steps = Inl RuntimeError) \<and>
   (BIM G (autograd_grad dcost) model x s_gt epsilon alpha steps = Inr (model1, adv_x, delta) \<longrightarrow>
      0 < max_iter model \<and>
      (\<exists>mj aj dj.
         BIM_loop G (autograd_grad dcost) x s_gt epsilon alpha (nat steps - 1) model x None
           = Inr (mj, aj, dj) \<and>
         0 < max_iter mj \<and>
         delta = map (\<lambda>t. alpha * sgn t) (dcost mj aj s_gt)))"
proof -
  have first: "BIM G (autograd_grad dcost) model x s_gt epsilon alpha steps = Inl RuntimeError"
    if "max_iter model \<le> 0" and "0 < steps"
  proof -
    from that(2) obtain k where k: "nat steps = Suc k" by (cases "nat steps") auto
    from that(1) have g: "autograd_grad dcost model x s_gt = Inl RuntimeError"
      by (simp add: autograd_grad_def)
    have "BIM_loop G (autograd_grad dcost) x s_gt epsilon alpha (Suc k) model x None
            = Inl RuntimeError"
      using forward_no_iteration[OF that(1)] g by (rule BIM_loop_grad_error)
    then show ?thesis by (simp only: BIM_def k bind_e_Inl)
  qed
  have second: "0 < max_iter model \<and>
      (\<exists>mj aj dj.
         BIM_loop G (autograd_grad dcost) x s_gt epsilon alpha (nat steps - 1) model x None
           = Inr (mj, aj, dj) \<and>
         0 < max_iter mj \<and>
         delta = map (\<lambda>t. alpha * sgn t) (dcost mj aj s_gt))"
    if r: "BIM G (autograd_grad dcost) model x s_gt epsilon alpha steps = Inr (model1, adv_x, delta)"
  proof -
    have pos: "0 < steps"
    proof (rule ccontr)
      assume "\<not> 0 < steps"
      then have "BIM G (autograd_grad dcost) model x s_gt epsilon alpha steps
                   = Inl UnboundLocalError"
        by (simp add: BIM_def)
      with r show False by simp
    qed
    have it: "0 < max_iter model"
    proof (rule ccontr)
      assume "\<not> 0 < max_iter model"
      then have "max_iter model \<le> 0" by simp
      from first[OF this pos] r show False by simp
    qed
    from pos obtain k where k: "nat steps = k + Suc 0" by (cases "nat steps") auto
    from BIM_returns_loop[OF r]
    have "BIM_loop G (autograd_grad dcost) x s_gt epsilon alpha (k + Suc 0) model x None
            = Inr (model1, adv_x, Some delta)"
      by (simp only: k)
    then obtain mj aj dj where
      j: "BIM_loop G (autograd_grad dcost) x s_gt epsilon alpha k model x None = Inr (mj, aj, dj)"
      and l: "BIM_loop G (autograd_grad dcost) x s_gt epsilon alpha (Suc 0) mj aj dj
                = Inr (model1, adv_x, Some delta)"
      unfolding BIM_loop_add bind_e_eq_Inr by (auto split: prod.splits)
    from BIM_loop_last_step[OF l]
    have "0 < max_iter mj" and "delta = map (\<lambda>t. alpha * sgn t) (dcost mj aj s_gt)"
      by simp_all
    moreover from k have "nat steps - 1 = k" by simp
    ultimately show ?thesis using it j by blast
  qed
  from first second show ?thesis by blast
qed


theorem BIM_no_gradient_raises_witness:
  "max_iter model_no_iter \<le> 0 \<and> (0::int) < 2 \<and>
   BIM G_ex (autograd_grad dcost_ex) model_no_iter x_ex [1, 0] (1 / 10) (1 / 4) 2
     = Inl RuntimeError \<and>
   returned (BIM G_ex (autograd_grad dcost_ex) model_ex x_ex [1, 0] (1 / 10) (1 / 4) 2)
     = Inr ([31 / 10, - 11 / 10], [1 / 4, - 1 / 4]) \<and>
   0 < max_iter model_ex \<and>
   (\<exists>mj aj dj.
      BIM_loop G_ex (autograd_grad dcost_ex) x_ex [1, 0] (1 / 10) (1 / 4) (nat 2 - 1)
        model_ex x_ex None = Inr (mj, aj, dj) \<and>
      0 < max_iter mj \<and>
      [1 / 4, - 1 / 4] = map (\<lambda>t. 1 / 4 * sgn t) (dcost_ex mj aj [1, 0]))"
proof -
  have n: "max_iter model_no_iter \<le> 0"
    by (simp add: model_no_iter_def)
  have p: "(0::int) < 2" by simp
  have b: "BIM G_ex (autograd_grad dcost_ex) model_no_iter x_ex [1, 0] (1 / 10) (1 / 4) 2
             = Inl RuntimeError"
    using BIM_no_gradient_raises[of model_no_iter 2 G_ex dcost_ex x_ex "[1, 0]" "1 / 10" "1 / 4",
        THEN conjunct1, THEN mp, OF conjI[OF n p]] .
  have r: "returned (BIM G_ex (autograd_grad dcost_ex) model_ex x_ex [1, 0] (1 / 10) (1 / 4) 2)
             = Inr ([31 / 10, - 11 / 10], [1 / 4, - 1 / 4])"
    by (simp add: autograd_grad_def dcost_ex_def run_defs cong: bind_e_weak_cong)
  from returned_Inr[OF r] obtain m1 where
    b2: "BIM G_ex (autograd_grad dcost_ex) model_ex x_ex [1, 0] (1 / 10) (1 / 4) 2
           = Inr (m1, [31 / 10, - 11 / 10], [1 / 4, - 1 / 4])" ..
  note c = BIM_no_gradient_raises[THEN conjunct2, THEN mp, OF b2]
  from c have i: "0 < max_iter model_ex" by (rule conjunct1)
  from c have ex: "\<exists>mj aj dj.
      BIM_loop G_ex (autograd_grad dcost_ex) x_ex [1, 0] (1 / 10) (1 / 4) (nat 2 - 1)
        model_ex x_ex None = Inr (mj, aj, dj) \<and>
      0 < max_iter mj \<and>
      [1 / 4, - 1 / 4] = map (\<lambda>t. 1 / 4 * sgn t) (dcost_ex mj aj [1, 0])"
    by (rule conjunct2)
  from n p b r i ex show ?thesis by (intro conjI)
qed

text \<open>
  Claim C9 fails in the error it names: the class of the exception that reaches the
  caller is \<open>RuntimeError\<close>; the code defines and raises no \<open>DifferentiationError\<close>.
\<close>

theorem BIM_no_gradient_counterexample:
  "BIM G_ex (autograd_grad dcost_ex) model_no_iter x_ex [1, 0] (1 / 10) (1 / 4) 2
     = Inl RuntimeError \<and>
   exception_name RuntimeError \<noteq> ''DifferentiationError''"
proof (rule conjI)
  show "BIM G_ex (autograd_grad dcost_ex) model_no_iter x_ex [1, 0] (1 / 10) (1 / 4) 2
     = Inl RuntimeError"
    by (simp add: autograd_grad_def model_no_iter_def run_defs cong: bind_e_weak_cong)
  show "exception_name RuntimeError \<noteq> ''DifferentiationError''"
    by (simp add: exception_name_def)
qed

text \<open>
  Claim C10: with no step (\<open>steps \<le> 0\<close>) the local \<open>delta\<close> is never assigned and the
  \<^verbatim>\<open>return\<close> of the attack raises \<open>UnboundLocalError\<close>; with at least one step it is
  assigned whenever the loop completes, and the attack returns.
\<close>

theorem BIM_zero_steps_unbound:
  "(steps \<le> 0 \<longrightarrow> BIM G grad model x s_gt epsilon alpha steps = Inl UnboundLocalError) \<and>
   (0 < steps \<and>
    BIM_loop G grad x s_gt epsilon alpha (nat steps) model x None = Inr (model1, adv_x, delta) \<longrightarrow>
      (\<exists>d. delta = Some d \<and> BIM G grad model x s_gt epsilon alpha steps = Inr (model1, adv_x, d)))"
proof (intro conjI impI)
  assume "steps \<le> 0"
  then show "BIM G grad model x s_gt epsilon alpha steps = Inl UnboundLocalError"
    by (simp add: BIM_def)
next
  assume a: "0 < steps \<and>
    BIM_loop G grad x s_gt epsilon alpha (nat steps) model x None = Inr (model1, adv_x, delta)"
  then have "0 < steps" by (rule conjunct1)
  then obtain k where k: "nat steps = Suc k" by (cases "nat steps") auto
  from a have l: "BIM_loop G grad x s_gt epsilon alpha (nat steps) model x None = Inr (model1, adv_x, delta)"
    by (rule conjunct2)
  from l[unfolded k] have "delta \<noteq> None" by (rule BIM_loop_Suc_delta)
  then obtain d where "delta = Some d" by auto
  with l show "\<exists>d. delta = Some d \<and> BIM G grad model x s_gt epsilon alpha steps = Inr (model1, adv_x, d)"
    by (simp add: BIM_def)
qed

theorem BIM_zero_steps_unbound_witness:
  "(0::int) \<le> 0 \<and>
   BIM G_ex grad_ex model_ex x_ex [1, 0] (1 / 10) (1 / 4) 0 = Inl UnboundLocalError \<and>
   (0::int) < 1 \<and>
   returned (BIM_loop G_ex grad_ex x_ex [1, 0] (1 / 10) (1 / 4) (nat 1) model_ex x_ex None)
     = Inr ([31 / 10, - 11 / 10], Some [1 / 4, - 1 / 4]) \<and>
   returned (BIM G_ex grad_ex model_ex x_ex [1, 0] (1 / 10) (1 / 4) 1)
     = Inr ([31 / 10, - 11 / 10], [1 / 4, - 1 / 4])"
proof -
  have z: "(0::int) \<le> 0" and p: "(0::int) < 1" by simp_all
  have b0: "BIM G_ex grad_ex model_ex x_ex [1, 0] (1 / 10) (1 / 4) 0 = Inl UnboundLocalError"
    by (rule BIM_zero_steps_unbound[THEN conjunct1, THEN mp]) (rule z)
  have l: "returned (BIM_loop G_ex grad_ex x_ex [1, 0] (1 / 10) (1 / 4) (nat 1) model_ex x_ex None)
             = Inr ([31 / 10, - 11 / 10], Some [1 / 4, - 1 / 4])"
    by (simp add: run_defs cong: bind_e_weak_cong)
  from returned_Inr[OF l] obtain m1 where
    l1: "BIM_loop G_ex grad_ex x_ex [1, 0] (1 / 10) (1 / 4) (nat 1) model_ex x_ex None
           = Inr (m1, [31 / 10, - 11 / 10], Some [1 / 4, - 1 / 4])" ..
  have "\<exists>d. Some [1 / 4, - 1 / 4] = Some d \<and>
          BIM G_ex grad_ex model_ex x_ex [1, 0] (1 / 10) (1 / 4) 1 = Inr (m1, [31 / 10, - 11 / 10], d)"
    using BIM_zero_steps_unbound[THEN conjunct2, THEN mp, OF conjI[OF p l1]] .
  then have "BIM G_ex grad_ex model_ex x_ex [1, 0] (1 / 10) (1 / 4) 1
          = Inr (m1, [31 / 10, - 11 / 10], [1 / 4, - 1 / 4])"
    by (elim exE conjE) (simp only: option.inject)
  then have b1: "returned (BIM G_ex grad_ex model_ex x_ex [1, 0] (1 / 10) (1 / 4) 1)
     = Inr ([31 / 10, - 11 / 10], [1 / 4, - 1 / 4])"
    by (simp add: returned_def)
  from z b0 p l b1 show ?thesis by (intro conjI)
qed

section \<open>The loop of the solver, iteration by iteration\<close>

lemma converged_at_0: "update G st x = Inr b \<Longrightarrow> converged_at G x st 0 = converged b (s st)"
  by (simp add: converged_at_def)

lemma converged_at_Suc: "update G st x = Inr b \<Longrightarrow> converged_at G x st (Suc i) = converged_at G x b i"
  by (simp add: converged_at_def)

lemma residual_at_0: "update G st x = Inr b \<Longrightarrow> residual_at G x st 0 = recovery_error b x"
  by (simp add: residual_at_def)

lemma residual_at_Suc: "update G st x = Inr b \<Longrightarrow> residual_at G x st (Suc i) = residual_at G x b i"
  by (simp add: residual_at_def)

lemma after_updates_Suc: "update G st x = Inr b \<Longrightarrow> after_updates G x (Suc i) st = after_updates G x i b"
  by simp

lemma converged_at_Inr_update: "converged_at G x st 0 = Inr c \<Longrightarrow> \<exists>b. update G st x = Inr b"
  by (auto simp: converged_at_def bind_e_eq_Inr)

lemma residual_at_Inr_after: "residual_at G x st i = Inr r \<Longrightarrow> \<exists>b. after_updates G x (Suc i) st = Inr b"
  unfolding residual_at_def bind_e_eq_Inr by blast

text \<open>What a run of the loop that returns has done.\<close>

lemma forward_loop_sound:
  "forward_loop G k st x acc = Inr (st1, tr) \<Longrightarrow>
   \<exists>tr'. tr = acc @ tr' \<and> length tr' \<le> k \<and>
     (\<forall>i<length tr'. converged_at G x st i = Inr False \<and> residual_at G x st i = Inr (tr' ! i)) \<and>
     (if length tr' < k
      then converged_at G x st (length tr') = Inr True \<and>
           after_updates G x (Suc (length tr')) st = Inr st1
      else after_updates G x (length tr') st = Inr st1)"
proof (induction k arbitrary: st acc)
  case 0
  then show ?case by simp
next
  case (Suc k)
  from Suc.prems obtain b c where b: "update G st x = Inr b"
    and c: "converged b (s st) = Inr c"
    and rest: "(if c then Inr (b, acc)
                else bind_e (recovery_error b x) (\<lambda>r. forward_loop G k b x (acc @ [r]))) = Inr (st1, tr)"
    by (auto simp: bind_e_eq_Inr)
  show ?case
  proof (cases c)
    case True
    with rest have "st1 = b" "tr = acc" by simp_all
    with b c True show ?thesis by (simp add: converged_at_0)
  next
    case False
    with rest obtain r where r: "recovery_error b x = Inr r"
      and loop: "forward_loop G k b x (acc @ [r]) = Inr (st1, tr)"
      by (auto simp: bind_e_eq_Inr)
    from Suc.IH[OF loop] obtain t where t: "tr = (acc @ [r]) @ t" "length t \<le> k"
      and each: "\<forall>i<length t. converged_at G x b i = Inr False \<and> residual_at G x b i = Inr (t ! i)"
      and fin: "if length t < k
         then converged_at G x b (length t) = Inr True \<and> after_updates G x (Suc (length t)) b = Inr st1
         else after_updates G x (length t) b = Inr st1"
      by blast
    have each': "\<forall>i<length (r # t). converged_at G x st i = Inr False \<and> residual_at G x st i = Inr ((r # t) ! i)"
    proof (intro allI impI)
      fix i assume "i < length (r # t)"
      then show "converged_at G x st i = Inr False \<and> residual_at G x st i = Inr ((r # t) ! i)"
        using each b c r False
        by (cases i) (simp_all add: converged_at_0 converged_at_Suc residual_at_0 residual_at_Suc)
    qed
    have fin': "if length (r # t) < Suc k
         then converged_at G x st (length (r # t)) = Inr True \<and>
              after_updates G x (Suc (length (r # t))) st = Inr st1
         else after_updates G x (length (r # t)) st = Inr st1"
      using fin b by (simp add: converged_at_Suc after_updates_Suc del: after_updates.simps(2))
    from t have "tr = acc @ (r # t)" "length (r # t) \<le> Suc k" by simp_all
    with each' fin' show ?thesis by blast
  qed
qed

text \<open>Conversely, iterations that behave so make the loop return.\<close>

lemma forward_loop_complete:
  "length t \<le> k \<Longrightarrow>
   (\<forall>i<length t. converged_at G x st i = Inr False \<and> residual_at G x st i = Inr (t ! i)) \<Longrightarrow>
   (if length t < k
      then converged_at G x st (length t) = Inr True \<and>
           after_updates G x (Suc (length t)) st = Inr st1
      else after_updates G x (length t) st = Inr st1) \<Longrightarrow>
   forward_loop G k st x acc = Inr (st1, acc @ t)"
proof (induction k arbitrary: st acc t)
  case 0
  then show ?case by simp
next
  case (Suc k)
  show ?case
  proof (cases t)
    case Nil
    with Suc.prems(3) have c: "converged_at G x st 0 = Inr True"
      and a: "after_updates G x (Suc 0) st = Inr st1" by simp_all
    from converged_at_Inr_update[OF c] obtain b where b: "update G st x = Inr b" by blast
    with a have "b = st1" by simp
    with b c Nil show ?thesis by (simp add: converged_at_0)
  next
    case (Cons r t')
    with Suc.prems(2) have c: "converged_at G x st 0 = Inr False"
      and r: "residual_at G x st 0 = Inr r" by auto
    from converged_at_Inr_update[OF c] obtain b where b: "update G st x = Inr b" by blast
    have each: "\<forall>i<length t'. converged_at G x b i = Inr False \<and> residual_at G x b i = Inr (t' ! i)"
    proof (intro allI impI)
      fix i assume "i < length t'"
      then have "Suc i < length t" using Cons by simp
      with Suc.prems(2) have "converged_at G x st (Suc i) = Inr False \<and> residual_at G x st (Suc i) = Inr (t ! Suc i)"
        by blast
      then show "converged_at G x b i = Inr False \<and> residual_at G x b i = Inr (t' ! i)"
        using b Cons by (simp add: converged_at_Suc residual_at_Suc)
    qed
    have fin: "if length t' < k
      then converged_at G x b (length t') = Inr True \<and> after_updates G x (Suc (length t')) b = Inr st1
      else after_updates G x (length t') b = Inr st1"
      using Suc.prems(3) Cons b
      by (simp add: converged_at_Suc after_updates_Suc del: after_updates.simps(2) cong: if_cong)
    have len: "length t' \<le> k" using Suc.prems(1) Cons by simp
    from Suc.IH[OF len each fin, of "acc @ [r]"] b c r Cons show ?thesis
      by (simp add: converged_at_0 residual_at_0)
  qed
qed

lemma forward_Inr_iff:
  "forward G st x = Inr (st1, est, tr) \<longleftrightarrow>
     est = s st1 \<and> forward_loop G (nat (max_iter st)) st x [] = Inr (st1, tr)"
  by (auto simp: forward_def bind_e_eq_Inr)

lemmas iter_defs = converged_at_def residual_at_def

text \<open>
  Claim C6: the solver stops at the first iteration whose test
  \<open>sum |s - s_prev| \<le> eps\<close> succeeds and appends nothing for that iteration; the trace
  holds, in the order of the iterations, the value \<open>sum ((H s - x)\<^sup>2)\<close> of every iteration
  before it, each of which ran to its end with a failed test. Exactly the runs of this
  form return.
\<close>

theorem forward_trace_characterisation:
  "forward G st x = Inr (st1, est, tr) \<longleftrightarrow>
     est = s st1 \<and> length tr \<le> nat (max_iter st) \<and>
     (\<forall>i<length tr. converged_at G x st i = Inr False \<and> residual_at G x st i = Inr (tr ! i)) \<and>
     (if length tr < nat (max_iter st)
      then converged_at G x st (length tr) = Inr True \<and>
           after_updates G x (Suc (length tr)) st = Inr st1
      else after_updates G x (length tr) st = Inr st1)"
proof
  assume "forward G st x = Inr (st1, est, tr)"
  then have e: "est = s st1"
    and l: "forward_loop G (nat (max_iter st)) st x [] = Inr (st1, tr)"
    by (simp_all add: forward_Inr_iff)
  from forward_loop_sound[OF l] e
  show "est = s st1 \<and> length tr \<le> nat (max_iter st) \<and>
     (\<forall>i<length tr. converged_at G x st i = Inr False \<and> residual_at G x st i = Inr (tr ! i)) \<and>
     (if length tr < nat (max_iter st)
      then converged_at G x st (length tr) = Inr True \<and>
           after_updates G x (Suc (length tr)) st = Inr st1
      else after_updates G x (length tr) st = Inr st1)"
    by auto
next
  assume a: "est = s st1 \<and> length tr \<le> nat (max_iter st) \<and>
     (\<forall>i<length tr. converged_at G x st i = Inr False \<and> residual_at G x st i = Inr (tr ! i)) \<and>
     (if length tr < nat (max_iter st)
      then converged_at G x st (length tr) = Inr True \<and>
           after_updates G x (Suc (length tr)) st = Inr st1
      else after_updates G x (length tr) st = Inr st1)"
  then have "forward_loop G (nat (max_iter st)) st x [] = Inr (st1, [] @ tr)"
    by (intro forward_loop_complete) blast+
  with a show "forward G st x = Inr (st1, est, tr)"
    by (simp add: forward_Inr_iff)
qed

theorem forward_trace_characterisation_witness:
  "returned (forward G_ex model_conv x_ex) = Inr ([17 / 8, - 3 / 8], [5 / 2, 53 / 32]) \<and>
   converged_at G_ex x_ex model_conv 0 = Inr False \<and>
   residual_at G_ex x_ex model_conv 0 = Inr (5 / 2) \<and>
   converged_at G_ex x_ex model_conv 1 = Inr False \<and>
   residual_at G_ex x_ex model_conv 1 = Inr (53 / 32) \<and>
   converged_at G_ex x_ex model_conv 2 = Inr True"
proof -
  have r: "returned (forward G_ex model_conv x_ex) = Inr ([17 / 8, - 3 / 8], [5 / 2, 53 / 32])"
    by (simp add: model_conv_def run_defs cong: bind_e_weak_cong)
  from returned_Inr[OF r] obtain st1 where
    f: "forward G_ex model_conv x_ex = Inr (st1, [17 / 8, - 3 / 8], [5 / 2, 53 / 32])" ..
  have k: "nat (max_iter model_conv) = 6"
    by (simp add: model_conv_def)
  note c = forward_trace_characterisation[THEN iffD1, OF f, unfolded k]
  from c have each: "\<forall>i<length [5 / 2, 53 / 32 :: real].
      converged_at G_ex x_ex model_conv i = Inr False \<and>
      residual_at G_ex x_ex model_conv i = Inr ([5 / 2, 53 / 32] ! i)"
    by (elim conjE)
  have i0: "0 < length [5 / 2, 53 / 32 :: real]" and i1: "1 < length [5 / 2, 53 / 32 :: real]"
    by simp_all
  from each[rule_format, OF i0] each[rule_format, OF i1]
  have t: "converged_at G_ex x_ex model_conv 0 = Inr False"
    "residual_at G_ex x_ex model_conv 0 = Inr (5 / 2)"
    "converged_at G_ex x_ex model_conv 1 = Inr False"
    "residual_at G_ex x_ex model_conv 1 = Inr (53 / 32)"
    by simp_all
  from c have "if length [5 / 2, 53 / 32 :: real] < 6
      then converged_at G_ex x_ex model_conv (length [5 / 2, 53 / 32 :: real]) = Inr True \<and>
           after_updates G_ex x_ex (Suc (length [5 / 2, 53 / 32 :: real])) model_conv = Inr st1
      else after_updates G_ex x_ex (length [5 / 2, 53 / 32 :: real]) model_conv = Inr st1"
    by (elim conjE)
  then have "converged_at G_ex x_ex model_conv 2 = Inr True"
    by (simp add: numeral_2_eq_2 del: after_updates.simps)
  with r t show ?thesis by (intro conjI)
qed

text \<open>
  Claim C7: a call of the solver performs at most \<open>max_iter\<close> iterations, and its trace
  has at most \<open>max_iter\<close> entries. When no iteration converges and none raises, the call
  returns after \<open>max_iter\<close> iterations with a trace of that length: exhausting the budget
  is a return, not an exception.
\<close>

theorem forward_within_max_iter:
  "(forward G st x = Inr (st1, est, tr) \<longrightarrow>
      length tr \<le> nat (max_iter st) \<and>
      (\<exists>n\<le>nat (max_iter st). after_updates G x n st = Inr st1)) \<and>
   ((\<forall>i<nat (max_iter st).
        converged_at G x st i = Inr False \<and> (\<exists>r. residual_at G x st i = Inr r)) \<longrightarrow>
      (\<exists>st2 tr2. forward G st x = Inr (st2, s st2, tr2) \<and> length tr2 = nat (max_iter st) \<and>
         after_updates G x (nat (max_iter st)) st = Inr st2))"
proof (rule conjI; rule impI)
  assume "forward G st x = Inr (st1, est, tr)"
  then have l: "forward_loop G (nat (max_iter st)) st x [] = Inr (st1, tr)"
    by (simp add: forward_Inr_iff)
  from forward_loop_sound[OF l]
  have len: "length tr \<le> nat (max_iter st)"
    and fin: "if length tr < nat (max_iter st)
      then converged_at G x st (length tr) = Inr True \<and>
           after_updates G x (Suc (length tr)) st = Inr st1
      else after_updates G x (length tr) st = Inr st1"
    by auto
  have "\<exists>n\<le>nat (max_iter st). after_updates G x n st = Inr st1"
  proof (cases "length tr < nat (max_iter st)")
    case True
    with fin have "after_updates G x (Suc (length tr)) st = Inr st1" by simp
    moreover from True have "Suc (length tr) \<le> nat (max_iter st)" by simp
    ultimately show ?thesis by blast
  next
    case False
    with fin have "after_updates G x (length tr) st = Inr st1" by simp
    with len show ?thesis by blast
  qed
  with len show "length tr \<le> nat (max_iter st) \<and>
      (\<exists>n\<le>nat (max_iter st). after_updates G x n st = Inr st1)" by (intro conjI)
next
  define K where "K = nat (max_iter st)"
  assume "\<forall>i<nat (max_iter st).
        converged_at G x st i = Inr False \<and> (\<exists>r. residual_at G x st i = Inr r)"
  then have h: "\<forall>i<K. converged_at G x st i = Inr False \<and> (\<exists>r. residual_at G x st i = Inr r)"
    by (simp add: K_def)
  define t where "t = map (\<lambda>i. projr (residual_at G x st i)) [0..<K]"
  have lt: "length t = K" by (simp add: t_def)
  have each: "\<forall>i<length t. converged_at G x st i = Inr False \<and> residual_at G x st i = Inr (t ! i)"
  proof (intro allI impI)
    fix i assume "i < length t"
    then have i: "i < K" by (simp add: lt)
    with h obtain r where "converged_at G x st i = Inr False" "residual_at G x st i = Inr r"
      by blast
    with i show "converged_at G x st i = Inr False \<and> residual_at G x st i = Inr (t ! i)"
      by (simp add: t_def)
  qed
  have "\<exists>st2. after_updates G x K st = Inr st2"
  proof (cases K)
    case 0
    then show ?thesis by simp
  next
    case (Suc j)
    then have "j < K" by simp
    with h obtain r where "residual_at G x st j = Inr r" by blast
    from residual_at_Inr_after[OF this] Suc show ?thesis by simp
  qed
  then obtain st2 where st2: "after_updates G x K st = Inr st2" ..
  have le: "length t \<le> K" by (simp add: lt)
  have fin: "if length t < K
      then converged_at G x st (length t) = Inr True \<and>
           after_updates G x (Suc (length t)) st = Inr st2
      else after_updates G x (length t) st = Inr st2"
    using st2 by (simp add: lt del: after_updates.simps)
  from forward_loop_complete[OF le each fin, of "[]"]
  have "forward G st x = Inr (st2, s st2, t)"
    by (simp add: forward_Inr_iff K_def)
  with lt st2 show "\<exists>st2 tr2. forward G st x = Inr (st2, s st2, tr2) \<and>
      length tr2 = nat (max_iter st) \<and> after_updates G x (nat (max_iter st)) st = Inr st2"
    unfolding K_def by blast
qed

theorem forward_within_max_iter_witness:
  "returned (forward G_ex model_3 x_ex) = Inr ([17 / 8, - 3 / 8], [5 / 2, 53 / 32, 37 / 32]) \<and>
   length [5 / 2, 53 / 32, 37 / 32 :: real] \<le> nat (max_iter model_3) \<and>
   converged_at G_ex x_ex model_3 0 = Inr False \<and>
   residual_at G_ex x_ex model_3 0 = Inr (5 / 2) \<and>
   converged_at G_ex x_ex model_3 1 = Inr False \<and>
   residual_at G_ex x_ex model_3 1 = Inr (53 / 32) \<and>
   converged_at G_ex x_ex model_3 2 = Inr False \<and>
   residual_at G_ex x_ex model_3 2 = Inr (37 / 32) \<and>
   (\<exists>st2 tr2. forward G_ex model_3 x_ex = Inr (st2, s st2, tr2) \<and>
      length tr2 = nat (max_iter model_3))"
proof -
  have r: "returned (forward G_ex model_3 x_ex)
             = Inr ([17 / 8, - 3 / 8], [5 / 2, 53 / 32, 37 / 32])"
    by (simp add: model_3_def run_defs cong: bind_e_weak_cong)
  from returned_Inr[OF r] obtain st1 where
    f: "forward G_ex model_3 x_ex = Inr (st1, [17 / 8, - 3 / 8], [5 / 2, 53 / 32, 37 / 32])" ..
  note T = forward_within_max_iter[of G_ex model_3 x_ex st1 "[17 / 8, - 3 / 8]"
      "[5 / 2, 53 / 32, 37 / 32]"]
  from T[THEN conjunct1, THEN mp, OF f]
  have len: "length [5 / 2, 53 / 32, 37 / 32 :: real] \<le> nat (max_iter model_3)"
    by (rule conjunct1)
  have c0: "converged_at G_ex x_ex model_3 0 = Inr False"
    by (simp add: iter_defs model_3_def run_defs cong: bind_e_weak_cong)
  have r0: "residual_at G_ex x_ex model_3 0 = Inr (5 / 2)"
    by (simp add: iter_defs model_3_def run_defs cong: bind_e_weak_cong)
  have c1: "converged_at G_ex x_ex model_3 1 = Inr False"
    by (simp add: iter_defs model_3_def run_defs cong: bind_e_weak_cong)
  have r1: "residual_at G_ex x_ex model_3 1 = Inr (53 / 32)"
    by (simp add: iter_defs model_3_def run_defs cong: bind_e_weak_cong)
  have c2: "converged_at G_ex x_ex model_3 2 = Inr False"
    by (simp add: iter_defs model_3_def run_defs cong: bind_e_weak_cong)
  have r2: "residual_at G_ex x_ex model_3 2 = Inr (37 / 32)"
    by (simp add: iter_defs model_3_def run_defs cong: bind_e_weak_cong)
  have k: "nat (max_iter model_3) = 3"
    by (simp add: model_3_def)
  have h: "\<forall>i<nat (max_iter model_3).
      converged_at G_ex x_ex model_3 i = Inr False \<and>
      (\<exists>r. residual_at G_ex x_ex model_3 i = Inr r)"
  proof (intro allI impI)
    fix i assume "i < nat (max_iter model_3)"
    then have "i = 0 \<or> i = 1 \<or> i = 2" unfolding k by arith
    then show "converged_at G_ex x_ex model_3 i = Inr False \<and>
      (\<exists>r. residual_at G_ex x_ex model_3 i = Inr r)"
      using c0 r0 c1 r1 c2 r2 by blast
  qed
  from T[THEN conjunct2, THEN mp, OF h]
  have ex: "\<exists>st2 tr2. forward G_ex model_3 x_ex = Inr (st2, s st2, tr2) \<and>
      length tr2 = nat (max_iter model_3)"
    by blast
  from r len c0 r0 c1 r1 c2 r2 ex show ?thesis by (intro conjI)
qed

section \<open>The exposed loss\<close>

lemma sum_list_upt_sum: "sum_list (map f [0..<n]) = (\<Sum>i<n. f i)"
  by (simp add: interv_sum_list_conv_sum_set_nat atLeast0LessThan)

lemma sum_list_nth_sum: "sum_list (map f xs) = (\<Sum>i<length xs. f (xs ! i))"
proof -
  have "sum_list (map f xs) = (\<Sum>i = 0..<length (map f xs). map f xs ! i)"
    by (rule sum_list_sum_nth)
  also have "\<dots> = (\<Sum>i<length xs. f (xs ! i))"
    by (simp add: atLeast0LessThan)
  finally show ?thesis .
qed

lemma matmul_entries:
  "nc A = length x \<Longrightarrow>
   matmul A x = Inr (map (\<lambda>i. \<Sum>j<nc A. en A i j * x ! j) [0..<nr A])"
  by (simp add: matmul_def sum_list_upt_sum)

text \<open>
  Claim C8: on an estimate and an observation of the shapes of \<open>H\<close>, the exposed loss is
  \<open>0.5 * sum ((H s - x)\<^sup>2) + rho * sum |s|\<close>: the weight of the L1 term is the penalty
  \<open>rho\<close>, and the value depends neither on \<open>lambda\<close> nor on the state \<open>s\<close>, \<open>u\<close>, \<open>v\<close> of the
  instance, of which the method changes nothing (it returns a number only).
\<close>

theorem loss_func_formula:
  "(length s_est = nc (H st) \<and> length x_sig = nr (H st) \<longrightarrow>
      loss_func st s_est x_sig =
        Inr (1 / 2 * (\<Sum>i<nr (H st). ((\<Sum>j<nc (H st). en (H st) i j * s_est ! j) - x_sig ! i)\<^sup>2)
             + rho st * (\<Sum>j<length s_est. \<bar>s_est ! j\<bar>))) \<and>
   loss_func (st\<lparr>lambda := l, s := a, u := b, v := c\<rparr>) s_est x_sig = loss_func st s_est x_sig"
proof (rule conjI)
  show "length s_est = nc (H st) \<and> length x_sig = nr (H st) \<longrightarrow>
      loss_func st s_est x_sig =
        Inr (1 / 2 * (\<Sum>i<nr (H st). ((\<Sum>j<nc (H st). en (H st) i j * s_est ! j) - x_sig ! i)\<^sup>2)
             + rho st * (\<Sum>j<length s_est. \<bar>s_est ! j\<bar>))"
  proof (rule impI)
    assume sh: "length s_est = nc (H st) \<and> length x_sig = nr (H st)"
    define hs where "hs = map (\<lambda>i. \<Sum>j<nc (H st). en (H st) i j * s_est ! j) [0..<nr (H st)]"
    from sh have m: "matmul (H st) s_est = Inr hs"
      by (simp add: matmul_entries hs_def)
    from sh have lh: "length hs = length x_sig" by (simp add: hs_def)
    then have d: "broadcast (-) hs x_sig = Inr (map2 (-) hs x_sig)"
      by (rule broadcast_same)
    have "sum_list (map (\<lambda>a. a\<^sup>2) (map2 (-) hs x_sig))
            = (\<Sum>i<length (map2 (-) hs x_sig). (map2 (-) hs x_sig ! i)\<^sup>2)"
      by (rule sum_list_nth_sum)
    also have "\<dots> = (\<Sum>i<nr (H st). (hs ! i - x_sig ! i)\<^sup>2)"
      using lh sh by simp
    also have "\<dots> = (\<Sum>i<nr (H st). ((\<Sum>j<nc (H st). en (H st) i j * s_est ! j) - x_sig ! i)\<^sup>2)"
      by (rule sum.cong) (simp_all add: hs_def)
    finally have sq: "sum_list (map (\<lambda>a. a\<^sup>2) (map2 (-) hs x_sig))
        = (\<Sum>i<nr (H st). ((\<Sum>j<nc (H st). en (H st) i j * s_est ! j) - x_sig ! i)\<^sup>2)" .
    have l1: "sum_list (map abs s_est) = (\<Sum>j<length s_est. \<bar>s_est ! j\<bar>)"
      by (rule sum_list_nth_sum)
    show "loss_func st s_est x_sig =
        Inr (1 / 2 * (\<Sum>i<nr (H st). ((\<Sum>j<nc (H st). en (H st) i j * s_est ! j) - x_sig ! i)\<^sup>2)
             + rho st * (\<Sum>j<length s_est. \<bar>s_est ! j\<bar>))"
      unfolding loss_func_def m d bind_e_Inr sq l1 by simp
  qed
  show "loss_func (st\<lparr>lambda := l, s := a, u := b, v := c\<rparr>) s_est x_sig = loss_func st s_est x_sig"
    by (simp add: loss_func_def)
qed

theorem loss_func_formula_witness:
  "length [1, - 2 :: real] = nc (H (model_ex\<lparr>lambda := 100\<rparr>)) \<and>
   length x_ex = nr (H (model_ex\<lparr>lambda := 100\<rparr>)) \<and>
   loss_func (model_ex\<lparr>lambda := 100\<rparr>) [1, - 2] x_ex = Inr (11 / 2)"
proof -
  have a: "length [1, - 2 :: real] = nc (H (model_ex\<lparr>lambda := 100\<rparr>))"
    and b: "length x_ex = nr (H (model_ex\<lparr>lambda := 100\<rparr>))"
    by (simp_all add: model_ex_def I2_def mat_of_rows_def x_ex_def)
  from loss_func_formula[of "[1, - 2]" "model_ex\<lparr>lambda := 100\<rparr>" x_ex, THEN conjunct1, THEN mp,
      OF conjI[OF a b]]
  have "loss_func (model_ex\<lparr>lambda := 100\<rparr>) [1, - 2] x_ex = Inr (11 / 2)"
    by (simp add: model_ex_def I2_def mat_of_rows_def x_ex_def lessThan_Suc eval_nat_numeral)
  with a b show ?thesis by (intro conjI)
qed

section \<open>Construction\<close>

lemma matmul_mm_T: "matmul_mm (mat_T A) A =
  Inr \<lparr>nr = nc A, nc = nc A, en = (\<lambda>i j. sum_list (map (\<lambda>k. en A k i * en A k j) [0..<nr A]))\<rparr>"
  by (simp add: matmul_mm_def mat_T_def)

text \<open>The matrix that the constructor hands to the inversion: \<open>H\<^sup>T H + rho I\<close>.\<close>

lemma ADMM_init_eq:
  "ADMM_init linalg_inv H0 mu0 lambda0 max_iter0 eps0 rho0 =
     bind_e (linalg_inv
        \<lparr>nr = nc H0, nc = nc H0,
         en = (\<lambda>i j. sum_list (map (\<lambda>k. en H0 k i * en H0 k j) [0..<nr H0])
                      + rho0 * (if i = j then 1 else 0))\<rparr>) (\<lambda>l.
     Inr \<lparr>mu = mu0, max_iter = max_iter0, eps = eps0, rho = rho0, lambda = lambda0,
          H = H0, left_term = l,
          s = zeros (nc H0), u = zeros (nc H0), v = zeros (nc H0)\<rparr>)"
  by (simp add: ADMM_init_def matmul_mm_T mat_add_def mat_scale_def eye_def)

lemma ADMM_init_fields:
  assumes "ADMM_init linalg_inv H0 mu0 lambda0 max_iter0 eps0 rho0 = Inr a"
  shows "H a = H0" "mu a = mu0" "lambda a = lambda0" "max_iter a = max_iter0" "eps a = eps0"
    "rho a = rho0" "s a = zeros (nc H0)" "u a = zeros (nc H0)" "v a = zeros (nc H0)"
  using assms by (auto simp: ADMM_init_eq bind_e_eq_Inr)

text \<open>
  Claim C3, as the code has it: the constructor checks none of its arguments. Whatever
  the step size, the penalty, the regularization weight, the iteration budget and the
  tolerance are, positive or not, it attempts the inversion of \<open>H\<^sup>T H + rho I\<close>; it fails
  exactly when the inversion does, with the error of the inversion, and otherwise
  stores the five values as given, with \<open>s\<close>, \<open>u\<close>, \<open>v\<close> zero.
\<close>

theorem ADMM_init_no_validation:
  "ADMM_init linalg_inv H0 mu0 lambda0 max_iter0 eps0 rho0 =
     (case linalg_inv
        \<lparr>nr = nc H0, nc = nc H0,
         en = (\<lambda>i j. (\<Sum>k<nr H0. en H0 k i * en H0 k j) + rho0 * (if i = j then 1 else 0))\<rparr>
      of Inl e \<Rightarrow> Inl e
      | Inr l \<Rightarrow>
          Inr \<lparr>mu = mu0, max_iter = max_iter0, eps = eps0, rho = rho0, lambda = lambda0,
               H = H0, left_term = l,
               s = replicate (nc H0) 0, u = replicate (nc H0) 0, v = replicate (nc H0) 0\<rparr>)"
  by (simp add: ADMM_init_eq bind_e_def zeros_def sum_list_upt_sum)

text \<open>
  Claim C3 fails: with every hyperparameter negative the constructor returns an instance
  that stores them (the inverse of \<open>(1 - 1 / 2)\<close> is in \<open>left_term\<close>); and with a zero
  penalty on the zero matrix the inversion is attempted and its error is what the
  caller gets.
\<close>

theorem ADMM_init_nonpositive_counterexample:
  "map_sum id hyperparameters (ADMM_init inv_1x1 H_1 (- 1) (- 1) (- 1) (- 1) (- 1 / 2))
     = Inr (- 1, - 1, - 1, - 1, - 1 / 2) \<and>
   ADMM_init inv_1x1 (mat_of_rows [[0]]) 1 1 1 1 0 = Inl LinAlgError"
  by (simp add: ADMM_init_eq inv_1x1_def H_1_def mat_of_rows_def hyperparameters_def)

section \<open>What a call of the solver leaves unchanged\<close>

lemma update_config:
  assumes "update G st x = Inr b"
  shows "H b = H st" "mu b = mu st" "lambda b = lambda st" "max_iter b = max_iter st"
    "eps b = eps st" "rho b = rho st" "left_term b = left_term st"
  using assms by (auto simp: update_def bind_e_eq_Inr split: if_splits)

lemma forward_loop_config:
  "forward_loop G k st x acc = Inr (st1, tr) \<Longrightarrow>
   H st1 = H st \<and> mu st1 = mu st \<and> lambda st1 = lambda st \<and> max_iter st1 = max_iter st \<and>
   eps st1 = eps st \<and> rho st1 = rho st \<and> left_term st1 = left_term st"
proof (induction k arbitrary: st acc)
  case 0
  then show ?case by simp
next
  case (Suc k)
  from Suc.prems obtain b c where b: "update G st x = Inr b"
    and rest: "(if c then Inr (b, acc)
                else bind_e (recovery_error b x) (\<lambda>r. forward_loop G k b x (acc @ [r]))) = Inr (st1, tr)"
    by (auto simp: bind_e_eq_Inr)
  show ?case
  proof (cases c)
    case True
    with rest have "st1 = b" by simp
    with update_config[OF b] show ?thesis by simp
  next
    case False
    with rest obtain r where "forward_loop G k b x (acc @ [r]) = Inr (st1, tr)"
      by (auto simp: bind_e_eq_Inr)
    from Suc.IH[OF this] update_config[OF b] show ?thesis by simp
  qed
qed

lemma forward_config:
  assumes "forward G st x = Inr (st1, est, tr)"
  shows "H st1 = H st" "mu st1 = mu st" "lambda st1 = lambda st" "max_iter st1 = max_iter st"
    "eps st1 = eps st" "rho st1 = rho st" "left_term st1 = left_term st"
  using forward_loop_config[of G "nat (max_iter st)" st x "[]" st1 tr] assms
  by (simp_all add: forward_Inr_iff)

section \<open>A second call on the same instance\<close>

lemma after_updates_add:
  "after_updates G x (n + k) st = bind_e (after_updates G x n st) (after_updates G x k)"
proof (induction n arbitrary: st)
  case 0
  then show ?case by simp
next
  case (Suc n)
  then show ?case by (cases "update G st x") simp_all
qed

lemma residual_at_shift:
  "after_updates G x n st = Inr st1 \<Longrightarrow> residual_at G x st (n + i) = residual_at G x st1 i"
proof -
  assume a: "after_updates G x n st = Inr st1"
  have "after_updates G x (Suc (n + i)) st = after_updates G x (n + Suc i) st" by simp
  also have "\<dots> = after_updates G x (Suc i) st1"
    by (simp only: after_updates_add a bind_e_Inr)
  finally show ?thesis by (simp only: residual_at_def)
qed

lemma forward_updates:
  assumes "forward G st x = Inr (st1, est, tr)"
  shows "\<exists>n\<le>nat (max_iter st). after_updates G x n st = Inr st1 \<and> est = s st1 \<and>
           (\<forall>i<length tr. residual_at G x st i = Inr (tr ! i))"
proof -
  from assms have e: "est = s st1"
    and l: "forward_loop G (nat (max_iter st)) st x [] = Inr (st1, tr)"
    by (simp_all add: forward_Inr_iff)
  from forward_loop_sound[OF l]
  have len: "length tr \<le> nat (max_iter st)"
    and each: "\<forall>i<length tr. residual_at G x st i = Inr (tr ! i)"
    and fin: "if length tr < nat (max_iter st)
      then converged_at G x st (length tr) = Inr True \<and>
           after_updates G x (Suc (length tr)) st = Inr st1
      else after_updates G x (length tr) st = Inr st1"
    by auto
  show ?thesis
  proof (cases "length tr < nat (max_iter st)")
    case True
    with fin have "after_updates G x (Suc (length tr)) st = Inr st1" by simp
    moreover from True have "Suc (length tr) \<le> nat (max_iter st)" by simp
    ultimately show ?thesis using e each by blast
  next
    case False
    with fin have "after_updates G x (length tr) st = Inr st1" by simp
    with len e each show ?thesis by blast
  qed
qed

text \<open>
  Claim C2, as the code has it: \<open>s\<close>, \<open>u\<close> and \<open>v\<close> are set to zero by the constructor, and by
  nothing else. A call of the solver does not start from zero but from what the call
  before it left: of two calls in succession on one instance, the second continues the
  iteration of the first. If the first call made \<open>n1\<close> updates, the second makes \<open>n2\<close> more,
  ends in the state after \<open>n1 + n2\<close> updates of the instance as it was before the first
  call, and its trace holds the residuals of the iterations \<open>n1\<close>, \<open>n1 + 1\<close>, ...
\<close>

theorem second_call_warm_starts:
  "(ADMM_init linalg_inv H0 mu0 lambda0 max_iter0 eps0 rho0 = Inr a \<longrightarrow>
      s a = zeros (nc H0) \<and> u a = zeros (nc H0) \<and> v a = zeros (nc H0)) \<and>
   (forward_twice G st x = Inr (st2, est2, tr2) \<longrightarrow>
      (\<exists>st1 est1 tr1 n1 n2.
         forward G st x = Inr (st1, est1, tr1) \<and>
         n1 \<le> nat (max_iter st) \<and> n2 \<le> nat (max_iter st) \<and>
         after_updates G x n1 st = Inr st1 \<and>
         after_updates G x (n1 + n2) st = Inr st2 \<and>
         est2 = s st2 \<and>
         (\<forall>i<length tr2. residual_at G x st (n1 + i) = Inr (tr2 ! i))))"
proof (rule conjI; rule impI)
  assume "ADMM_init linalg_inv H0 mu0 lambda0 max_iter0 eps0 rho0 = Inr a"
  from ADMM_init_fields(7-9)[OF this]
  show "s a = zeros (nc H0) \<and> u a = zeros (nc H0) \<and> v a = zeros (nc H0)"
    by (intro conjI)
next
  assume "forward_twice G st x = Inr (st2, est2, tr2)"
  then obtain st1 est1 tr1 where f1: "forward G st x = Inr (st1, est1, tr1)"
    and f2: "forward G st1 x = Inr (st2, est2, tr2)"
    unfolding forward_twice_def bind_e_eq_Inr by (auto split: prod.splits)
  from forward_updates[OF f1] obtain n1 where n1: "n1 \<le> nat (max_iter st)"
    and a1: "after_updates G x n1 st = Inr st1"
    by blast
  from forward_updates[OF f2] obtain n2 where n2: "n2 \<le> nat (max_iter st1)"
    and a2: "after_updates G x n2 st1 = Inr st2" and e2: "est2 = s st2"
    and r2: "\<forall>i<length tr2. residual_at G x st1 i = Inr (tr2 ! i)"
    by blast
  from forward_config(4)[OF f1] n2 have n2': "n2 \<le> nat (max_iter st)" by simp
  have a12: "after_updates G x (n1 + n2) st = Inr st2"
    by (simp only: after_updates_add a1 bind_e_Inr a2)
  from r2 have r: "\<forall>i<length tr2. residual_at G x st (n1 + i) = Inr (tr2 ! i)"
    by (simp only: residual_at_shift[OF a1])
  from f1 n1 n2' a1 a12 e2 r
  show "\<exists>st1 est1 tr1 n1 n2.
         forward G st x = Inr (st1, est1, tr1) \<and>
         n1 \<le> nat (max_iter st) \<and> n2 \<le> nat (max_iter st) \<and>
         after_updates G x n1 st = Inr st1 \<and>
         after_updates G x (n1 + n2) st = Inr st2 \<and>
         est2 = s st2 \<and>
         (\<forall>i<length tr2. residual_at G x st (n1 + i) = Inr (tr2 ! i))"
    by blast
qed


lemma map_sum_Inr_ex: "map_sum id f r = Inr b \<Longrightarrow> \<exists>a. r = Inr a"
  by (cases r) simp_all

theorem second_call_warm_starts_witness:
  "(\<exists>a. ADMM_init inv_1x1 H_1 (1 / 2) 1 1 (1 / 1000) 1 = Inr a \<and>
      s a = zeros (nc H_1) \<and> u a = zeros (nc H_1) \<and> v a = zeros (nc H_1)) \<and>
   returned (forward_twice G_ex model_ex x_ex) = Inr ([15 / 8, - 3 / 8], [53 / 32]) \<and>
   (\<exists>st1 st2 n1 n2.
      n1 \<le> nat (max_iter model_ex) \<and> n2 \<le> nat (max_iter model_ex) \<and>
      after_updates G_ex x_ex n1 model_ex = Inr st1 \<and>
      after_updates G_ex x_ex (n1 + n2) model_ex = Inr st2 \<and>
      [15 / 8, - 3 / 8] = s st2 \<and>
      residual_at G_ex x_ex model_ex (n1 + 0) = Inr (53 / 32))"
proof -
  have "map_sum id hyperparameters (ADMM_init inv_1x1 H_1 (1 / 2) 1 1 (1 / 1000) 1)
          = Inr (1 / 2, 1, 1, 1 / 1000, 1)"
    by (simp add: ADMM_init_eq inv_1x1_def H_1_def mat_of_rows_def hyperparameters_def)
  from map_sum_Inr_ex[OF this] obtain a where
    a: "ADMM_init inv_1x1 H_1 (1 / 2) 1 1 (1 / 1000) 1 = Inr a" ..
  from second_call_warm_starts[THEN conjunct1, THEN mp, OF a] a
  have i: "\<exists>a. ADMM_init inv_1x1 H_1 (1 / 2) 1 1 (1 / 1000) 1 = Inr a \<and>
      s a = zeros (nc H_1) \<and> u a = zeros (nc H_1) \<and> v a = zeros (nc H_1)"
    by (intro exI[of _ a] conjI) (elim conjE, assumption)+
  have r: "returned (forward_twice G_ex model_ex x_ex) = Inr ([15 / 8, - 3 / 8], [53 / 32])"
    by (simp add: forward_twice_def run_defs cong: bind_e_weak_cong)
  from returned_Inr[OF r] obtain st2 where
    t: "forward_twice G_ex model_ex x_ex = Inr (st2, [15 / 8, - 3 / 8], [53 / 32])" ..
  from second_call_warm_starts[THEN conjunct2, THEN mp, OF t]
  obtain st1 n1 n2 where n: "n1 \<le> nat (max_iter model_ex)" "n2 \<le> nat (max_iter model_ex)"
    and u: "after_updates G_ex x_ex n1 model_ex = Inr st1"
      "after_updates G_ex x_ex (n1 + n2) model_ex = Inr st2"
      "[15 / 8, - 3 / 8] = s st2"
    and each: "\<forall>i<length [53 / 32 :: real].
      residual_at G_ex x_ex model_ex (n1 + i) = Inr ([53 / 32] ! i)"
    by blast
  have "0 < length [53 / 32 :: real]" by simp
  with each have "residual_at G_ex x_ex model_ex (n1 + 0) = Inr ([53 / 32] ! 0)" by blast
  then have "residual_at G_ex x_ex model_ex (n1 + 0) = Inr (53 / 32)" by simp
  with n u have "\<exists>st1 st2 n1 n2.
      n1 \<le> nat (max_iter model_ex) \<and> n2 \<le> nat (max_iter model_ex) \<and>
      after_updates G_ex x_ex n1 model_ex = Inr st1 \<and>
      after_updates G_ex x_ex (n1 + n2) model_ex = Inr st2 \<and>
      [15 / 8, - 3 / 8] = s st2 \<and>
      residual_at G_ex x_ex model_ex (n1 + 0) = Inr (53 / 32)"
    by blast
  with i r show ?thesis by (intro conjI)
qed

text \<open>
  Claim C2 fails. On an instance whose \<open>s\<close>, \<open>u\<close> and \<open>v\<close> are zero, as a reset would leave
  them, two calls in succession on the same observation return different estimates and
  different traces. And no method in the body of the class is called \<open>reset\<close>.
\<close>

theorem no_reset_counterexample:
  "s model_ex = zeros 2 \<and> u model_ex = zeros 2 \<and> v model_ex = zeros 2 \<and>
   returned (forward G_ex model_ex x_ex) = Inr ([3 / 2, - 1 / 2], [5 / 2]) \<and>
   returned (forward_twice G_ex model_ex x_ex) = Inr ([15 / 8, - 3 / 8], [53 / 32]) \<and>
   ''reset'' \<notin> set ADMM_methods"
proof (intro conjI)
  show "s model_ex = zeros 2" "u model_ex = zeros 2" "v model_ex = zeros 2"
    by (simp_all add: model_ex_def)
  show "returned (forward G_ex model_ex x_ex) = Inr ([3 / 2, - 1 / 2], [5 / 2])"
    by (simp add: run_defs cong: bind_e_weak_cong)
  show "returned (forward_twice G_ex model_ex x_ex) = Inr ([15 / 8, - 3 / 8], [53 / 32])"
    by (simp add: forward_twice_def run_defs cong: bind_e_weak_cong)
  show "''reset'' \<notin> set ADMM_methods"
    by (simp add: ADMM_methods_def)
qed

section \<open>The update and the module-level names\<close>

lemma matmul_length: "matmul A x = Inr y \<Longrightarrow> length y = nr A"
  by (auto simp: matmul_def split: if_splits)

lemma shrinkage_spec:
  assumes "length x = utills_m G"
  shows "shrinkage G x beta = Inr (shrink_spec x beta)"
proof -
  from assms have "broadcast max (map (\<lambda>a. \<bar>a\<bar> - beta) x) (zeros (utills_m G))
      = Inr (map2 max (map (\<lambda>a. \<bar>a\<bar> - beta) x) (zeros (utills_m G)))"
    by (intro broadcast_same) (simp add: zeros_def)
  moreover have "broadcast (*) (map sgn x) (map2 max (map (\<lambda>a. \<bar>a\<bar> - beta) x) (zeros (utills_m G)))
      = Inr (map2 (*) (map sgn x) (map2 max (map (\<lambda>a. \<bar>a\<bar> - beta) x) (zeros (utills_m G))))"
    using assms by (intro broadcast_same) (simp add: zeros_def)
  moreover have "map2 (*) (map sgn x) (map2 max (map (\<lambda>a. \<bar>a\<bar> - beta) x) (zeros (utills_m G)))
      = shrink_spec x beta"
    using assms by (intro nth_equalityI) (simp_all add: shrink_spec_def zeros_def)
  ultimately show ?thesis by (simp add: shrinkage_def)
qed

text \<open>
  Where the module-level \<open>H\<close> is the sensing matrix of the instance and the module-level
  \<open>m\<close> is its signal dimension, the update of the code is the update of the
  specification, statement by statement.
\<close>

lemma update_is_update_spec:
  assumes "utills_H G = H st" and "lambda st \<noteq> 0"
    and "nr (left_term st) = utills_m G" and "length (u st) = utills_m G"
  shows "update G st x = update_spec st x"
proof -
  have sh: "shrinkage G a beta = Inr (shrink_spec a beta)"
    if "matmul (left_term st) rt = Inr s1" and "broadcast (+) s1 (u st) = Inr a"
    for rt s1 a beta
  proof -
    from that(1) assms(3) have "length s1 = utills_m G" by (simp add: matmul_length)
    with that(2) assms(4) have "length a = utills_m G" by (auto simp: broadcast_def)
    then show ?thesis by (rule shrinkage_spec)
  qed
  show ?thesis
    unfolding update_def update_spec_def
    using assms(1,2) by (auto simp: bind_e_def Let_def sh split: sum.splits)
qed

text \<open>
  Claim C1 at an instance whose sensing matrix is not the module-level one: the code
  computes \<open>s = left_term (H\<^sub>m\<^sub>o\<^sub>d\<^sub>u\<^sub>l\<^sub>e\<^sup>T x)\<close>, the claim says \<open>s = left_term (H\<^sub>s\<^sub>e\<^sub>l\<^sub>f\<^sup>T x)\<close>. And
  on a module-level \<open>m\<close> that is not the signal dimension of the instance, the shrinkage
  of the code raises.
\<close>

theorem update_reads_module_H:
  "map_sum id s (update G_ex model_2H x_ex) = Inr [3 / 5, - 1 / 5] \<and>
   map_sum id s (update_spec model_2H x_ex) = Inr [6 / 5, - 2 / 5] \<and>
   returned (forward G_ex model_2H x_ex) = Inr ([3 / 5, - 1 / 5], [18 / 5]) \<and>
   update (G_ex\<lparr>utills_m := 3\<rparr>) model_ex x_ex = Inl RuntimeError"
proof (intro conjI)
  show "map_sum id s (update G_ex model_2H x_ex) = Inr [3 / 5, - 1 / 5]"
    by (simp add: model_2H_def run_defs cong: bind_e_weak_cong)
  show "map_sum id s (update_spec model_2H x_ex) = Inr [6 / 5, - 2 / 5]"
    by (simp add: model_2H_def update_spec_def shrink_spec_def run_defs cong: bind_e_weak_cong)
  show "returned (forward G_ex model_2H x_ex) = Inr ([3 / 5, - 1 / 5], [18 / 5])"
    by (simp add: model_2H_def run_defs cong: bind_e_weak_cong)
  show "update (G_ex\<lparr>utills_m := 3\<rparr>) model_ex x_ex = Inl RuntimeError"
    by (simp add: run_defs cong: bind_e_weak_cong)
qed

end
